theory Spec2Isabelle
  imports Main "HOL-Library.Sublist"
begin


section \<open>Data model of the Android setup helper\<close>

text \<open>
  The class \<open>AndroidSetup\<close> of \<open>src/commands/android/index.ts\<close> is embedded with
  explicit state passing. Console output is reporting only and is left out; every other
  effect (file-system probes, PATH lookup, process execution, directory creation, the
  SDK download, the package installer, the configuration prompt) is a call of an oracle
  of the record \<open>sys\<close>, applied to the current state of the outside world, and is
  appended to the trace of the run with its arguments and its outcome.
\<close>

datatype Platform = Windows | Linux | Mac

datatype SdkBinary = Adb | Avdmanager | Emulator | Sdkmanager

datatype Mode = ModeReal | ModeEmulator | ModeBoth

datatype Browsers = BrowsersChrome | BrowsersFirefox | BrowsersBoth | BrowsersNone

text \<open>The value of a command-line option: \<open>string | string[] | boolean\<close>.\<close>

datatype OptionValue = OptBool bool | OptString string | OptList "string list"

record Options =
  opt_help :: bool
  opt_setup :: bool
  opt_mode :: "OptionValue option"
  opt_browsers :: "OptionValue option"

record SetupConfigs =
  mode :: "Mode option"
  browsers :: "Browsers option"

text \<open>
  One entry of the trace per external call. \<open>EvExec name args cmd cwd out\<close> is the
  \<open>execSync\<close> call made by \<open>execBinary name args\<close>: the command line, the working
  directory (\<open>None\<close>: inherited) and the captured output (\<open>None\<close>: the call threw).
\<close>

datatype event =
    EvExists string bool
  | EvWhich string bool
  | EvExec string string string "string option" "string option"
  | EvMkdir string bool
  | EvDownload string Platform
  | EvInstall string Platform "string list" bool
  | EvPrompt SetupConfigs SetupConfigs

text \<open>
  The collaborators of the class. The world \<open>'w\<close> is whatever the host machine is; the
  Node library functions, the helpers of \<open>./utils\<close> and the tables of \<open>./constants\<close>
  are not part of the source file and are parameters of the model. A call that may throw
  and is caught by the class (\<open>execSync\<close>, \<open>mkdirSync\<close>) reports it in its result:
  \<open>None\<close> and \<open>False\<close>. \<open>which.sync\<close> is called with \<open>nothrow\<close> and only its
  truth value is used. The download of the command-line tools is awaited and its outcome
  is not looked at; the package installer returns a boolean.
\<close>

record 'w sys =
  process_env_ANDROID_HOME :: "'w \<Rightarrow> string option"
  fs_existsSync :: "'w \<Rightarrow> string \<Rightarrow> bool"
  which_sync :: "'w \<Rightarrow> string \<Rightarrow> bool"
  child_process_execSync :: "'w \<Rightarrow> string \<Rightarrow> string option \<Rightarrow> string option \<times> 'w"
  fs_mkdirSync :: "'w \<Rightarrow> string \<Rightarrow> bool \<times> 'w"
  downloadAndSetupAndroidSdk :: "'w \<Rightarrow> string \<Rightarrow> Platform \<Rightarrow> 'w"
  installPackagesUsingSdkManager :: "'w \<Rightarrow> string \<Rightarrow> Platform \<Rightarrow> string list \<Rightarrow> bool \<times> 'w"
  inquirer_prompt :: "'w \<Rightarrow> SetupConfigs \<Rightarrow> SetupConfigs \<times> 'w"
  path_join :: "string list \<Rightarrow> string"
  path_basename :: "string \<Rightarrow> string"
  path_dirname :: "string \<Rightarrow> string"
  getBinaryNameForOS :: "Platform \<Rightarrow> string \<Rightarrow> string"
  getAbiForOS :: "string"
  SDK_BINARY_LOCATIONS :: "SdkBinary \<Rightarrow> string"
  BINARY_TO_PACKAGE_NAME :: "(string \<times> string) list"
  NIGHTWATCH_AVD :: "string"

text \<open>The fields of the class, the world it runs in and the trace of its external calls.\<close>

record 'w AndroidSetup =
  sdkRoot :: string
  options :: Options
  cwd :: string
  platform :: Platform
  binaryLocation :: "SdkBinary \<Rightarrow> string option"
  world :: "'w"
  trace :: "event list"

definition constructor :: "Options \<Rightarrow> string \<Rightarrow> Platform \<Rightarrow> 'w \<Rightarrow> 'w AndroidSetup" where
  "constructor opts dir plat w =
     \<lparr>sdkRoot = [], options = opts, cwd = dir, platform = plat,
      binaryLocation = Map.empty, world = w, trace = []\<rparr>"

fun binName :: "SdkBinary \<Rightarrow> string" where
  "binName Adb = ''adb''"
| "binName Avdmanager = ''avdmanager''"
| "binName Emulator = ''emulator''"
| "binName Sdkmanager = ''sdkmanager''"

section \<open>JavaScript string operations\<close>

text \<open>\<open>s.includes(sub)\<close>: \<open>sub\<close> occurs in \<open>s\<close> at some position.\<close>

fun str_includes :: "string \<Rightarrow> string \<Rightarrow> bool" where
  "str_includes [] sub = (sub = [])"
| "str_includes (c # cs) sub = (prefix sub (c # cs) \<or> str_includes cs sub)"

text \<open>
  \<open>s.split(sep)\<close>: the text is scanned from the left and cut at each occurrence of the
  separator; an empty separator cuts between all characters. \<open>acc\<close> is the current
  piece, reversed.
\<close>

function str_split_from :: "string \<Rightarrow> string \<Rightarrow> string \<Rightarrow> string list" where
  "str_split_from sep acc s =
     (if s = [] then [rev acc]
      else if sep \<noteq> [] \<and> prefix sep s
        then rev acc # str_split_from sep [] (drop (length sep) s)
      else str_split_from sep (hd s # acc) (tl s))"
  by pat_completeness auto
termination
  by (relation "measure (\<lambda>(sep, acc, s). length s)") auto

definition str_split :: "string \<Rightarrow> string \<Rightarrow> string list" where
  "str_split s sep =
     (if sep = [] then map (\<lambda>c. [c]) s else str_split_from sep [] s)"

section \<open>External calls\<close>

definition existsSync :: "'w sys \<Rightarrow> string \<Rightarrow> 'w AndroidSetup \<Rightarrow> bool \<times> 'w AndroidSetup" where
  "existsSync sys p s =
     (let r = fs_existsSync sys (world s) p
      in (r, s\<lparr>trace := trace s @ [EvExists p r]\<rparr>))"

definition whichSync :: "'w sys \<Rightarrow> string \<Rightarrow> 'w AndroidSetup \<Rightarrow> bool \<times> 'w AndroidSetup" where
  "whichSync sys n s =
     (let r = which_sync sys (world s) n
      in (r, s\<lparr>trace := trace s @ [EvWhich n r]\<rparr>))"

definition mkdirSync :: "'w sys \<Rightarrow> string \<Rightarrow> 'w AndroidSetup \<Rightarrow> bool \<times> 'w AndroidSetup" where
  "mkdirSync sys p s =
     (case fs_mkdirSync sys (world s) p of
        (ok, w) \<Rightarrow> (ok, s\<lparr>world := w, trace := trace s @ [EvMkdir p ok]\<rparr>))"

definition download :: "'w sys \<Rightarrow> 'w AndroidSetup \<Rightarrow> 'w AndroidSetup" where
  "download sys s =
     s\<lparr>world := downloadAndSetupAndroidSdk sys (world s) (sdkRoot s) (platform s),
       trace := trace s @ [EvDownload (sdkRoot s) (platform s)]\<rparr>"

definition install :: "'w sys \<Rightarrow> string \<Rightarrow> string list \<Rightarrow> 'w AndroidSetup \<Rightarrow> bool \<times> 'w AndroidSetup" where
  "install sys loc pkgs s =
     (case installPackagesUsingSdkManager sys (world s) loc (platform s) pkgs of
        (ok, w) \<Rightarrow> (ok, s\<lparr>world := w, trace := trace s @ [EvInstall loc (platform s) pkgs ok]\<rparr>))"

definition prompt :: "'w sys \<Rightarrow> SetupConfigs \<Rightarrow> 'w AndroidSetup \<Rightarrow> SetupConfigs \<times> 'w AndroidSetup" where
  "prompt sys configs s =
     (case inquirer_prompt sys (world s) configs of
        (answers, w) \<Rightarrow> (answers, s\<lparr>world := w, trace := trace s @ [EvPrompt configs answers]\<rparr>))"

section \<open>The methods of \<open>AndroidSetup\<close>\<close>

text \<open>
  \<open>getSdkRoot\<close>, lines 59 to 84: a truthy \<open>ANDROID_HOME\<close> is returned as it is; an unset
  or empty one gives the empty string.
\<close>

definition getSdkRoot :: "'w sys \<Rightarrow> 'w AndroidSetup \<Rightarrow> string" where
  "getSdkRoot sys s =
     (case process_env_ANDROID_HOME sys (world s) of
        Some androidHome \<Rightarrow> (if androidHome \<noteq> [] then androidHome else [])
      | None \<Rightarrow> [])"

text \<open>
  \<open>getConfigFromOptions\<close>, lines 86 to 118. An option value is used when it is truthy
  and not a boolean; \<open>includes\<close> is substring search on a string and membership on an
  array.
\<close>

fun optionIncludes :: "OptionValue \<Rightarrow> string \<Rightarrow> bool" where
  "optionIncludes (OptString v) x = str_includes v x"
| "optionIncludes (OptList vs) x = (x \<in> set vs)"
| "optionIncludes (OptBool b) x = False"

fun optionUsable :: "OptionValue option \<Rightarrow> bool" where
  "optionUsable None = False"
| "optionUsable (Some (OptBool b)) = False"
| "optionUsable (Some (OptString v)) = (v \<noteq> [])"
| "optionUsable (Some (OptList vs)) = True"

definition modeFromOptions :: "Options \<Rightarrow> Mode option" where
  "modeFromOptions opts =
     (case opt_mode opts of
        None \<Rightarrow> None
      | Some v \<Rightarrow>
          if optionUsable (Some v) then
            (let realMode = optionIncludes v ''real'';
                 emulatorMode = optionIncludes v ''emulator''
             in if realMode \<and> emulatorMode then Some ModeBoth
                else if realMode then Some ModeReal
                else if emulatorMode then Some ModeEmulator
                else None)
          else None)"

definition browsersFromOptions :: "Options \<Rightarrow> Browsers option" where
  "browsersFromOptions opts =
     (case opt_browsers opts of
        None \<Rightarrow> None
      | Some v \<Rightarrow>
          if optionUsable (Some v) then
            (let chrome = optionIncludes v ''chrome'';
                 firefox = optionIncludes v ''firefox''
             in if optionIncludes v ''none'' then Some BrowsersNone
                else if chrome \<and> firefox then Some BrowsersBoth
                else if chrome then Some BrowsersChrome
                else if firefox then Some BrowsersFirefox
                else None)
          else None)"

definition getConfigFromOptions :: "Options \<Rightarrow> SetupConfigs" where
  "getConfigFromOptions opts =
     \<lparr>mode = modeFromOptions opts, browsers = browsersFromOptions opts\<rparr>"

definition getSetupConfigs :: "'w sys \<Rightarrow> Options \<Rightarrow> 'w AndroidSetup \<Rightarrow> SetupConfigs \<times> 'w AndroidSetup" where
  "getSetupConfigs sys opts s = prompt sys (getConfigFromOptions opts) s"

text \<open>
  \<open>getBinaryLocation\<close>, lines 126 to 186. The location under the SDK root is probed
  first; for adb only, the SDK root itself and then the PATH. A successful probe stores
  the location in the cache and returns it, a failed lookup returns the empty string.
\<close>

definition getBinaryLocation :: "'w sys \<Rightarrow> SdkBinary \<Rightarrow> 'w AndroidSetup \<Rightarrow> string \<times> 'w AndroidSetup" where
  "getBinaryLocation sys binaryName s =
     (let binaryFullName = getBinaryNameForOS sys (platform s) (binName binaryName);
          pathToBinary = path_join sys [sdkRoot s, SDK_BINARY_LOCATIONS sys binaryName, binaryFullName]
      in case existsSync sys pathToBinary s of
        (found, s1) \<Rightarrow>
          if found then
            (pathToBinary, s1\<lparr>binaryLocation := (binaryLocation s1)(binaryName \<mapsto> pathToBinary)\<rparr>)
          else if binaryName = Adb then
            (let adbPath = path_join sys [sdkRoot s, binaryFullName]
             in case existsSync sys adbPath s1 of
               (foundAdb, s2) \<Rightarrow>
                 if foundAdb then
                   (adbPath, s2\<lparr>binaryLocation := (binaryLocation s2)(binaryName \<mapsto> adbPath)\<rparr>)
                 else
                   (case whichSync sys binaryFullName s2 of
                      (adbLocation, s3) \<Rightarrow>
                        if adbLocation then
                          (''PATH'', s3\<lparr>binaryLocation := (binaryLocation s3)(binaryName \<mapsto> ''PATH'')\<rparr>)
                        else ([], s3)))
          else ([], s1))"

text \<open>\<open>checkBinariesPresent\<close>, lines 188 to 200: the loop, with the list built so far.\<close>

fun checkBinariesPresent_loop ::
  "'w sys \<Rightarrow> SdkBinary list \<Rightarrow> SdkBinary list \<Rightarrow> 'w AndroidSetup \<Rightarrow> SdkBinary list \<times> 'w AndroidSetup" where
  "checkBinariesPresent_loop sys [] missingBinaries s = (missingBinaries, s)"
| "checkBinariesPresent_loop sys (binaryName # rest) missingBinaries s =
     (case getBinaryLocation sys binaryName s of
        (binaryPath, s1) \<Rightarrow>
          checkBinariesPresent_loop sys rest
            (if binaryPath = [] then missingBinaries @ [binaryName] else missingBinaries) s1)"

definition checkBinariesPresent ::
  "'w sys \<Rightarrow> SdkBinary list \<Rightarrow> 'w AndroidSetup \<Rightarrow> SdkBinary list \<times> 'w AndroidSetup" where
  "checkBinariesPresent sys binaries s = checkBinariesPresent_loop sys binaries [] s"

text \<open>
  \<open>execBinary\<close>, lines 202 to 246. Both \<open>execSync\<close> calls sit in a \<open>try\<close> whose
  \<open>catch\<close> returns the empty string.
\<close>

definition execCommand :: "'w sys \<Rightarrow> Platform \<Rightarrow> string \<Rightarrow> string \<Rightarrow> string \<Rightarrow> string" where
  "execCommand sys plat location binaryName args =
     (if location = ''PATH'' then getBinaryNameForOS sys plat binaryName @ '' '' @ args
      else if plat = Windows then path_basename sys location @ '' '' @ args
      else ''./'' @ path_basename sys location @ '' '' @ args)"

definition execCwd :: "'w sys \<Rightarrow> string \<Rightarrow> string option" where
  "execCwd sys location =
     (if location = ''PATH'' then None else Some (path_dirname sys location))"

definition execBinary ::
  "'w sys \<Rightarrow> string \<Rightarrow> string \<Rightarrow> string \<Rightarrow> 'w AndroidSetup \<Rightarrow> string \<times> 'w AndroidSetup" where
  "execBinary sys location binaryName args s =
     (let cmd = execCommand sys (platform s) location binaryName args;
          dir = execCwd sys location
      in case child_process_execSync sys (world s) cmd dir of
        (out, w) \<Rightarrow>
          ((case out of Some stdout \<Rightarrow> stdout | None \<Rightarrow> []),
           s\<lparr>world := w, trace := trace s @ [EvExec binaryName args cmd dir out]\<rparr>))"

text \<open>
  \<open>checkBinariesWorking\<close>, lines 248 to 275. A truthy cache entry is used instead of a
  new lookup.
\<close>

fun smokeTestArgs :: "SdkBinary \<Rightarrow> string" where
  "smokeTestArgs Emulator = ''-version''"
| "smokeTestArgs Avdmanager = ''list avd''"
| "smokeTestArgs b = ''--version''"

definition cachedOrLocate :: "'w sys \<Rightarrow> SdkBinary \<Rightarrow> 'w AndroidSetup \<Rightarrow> string \<times> 'w AndroidSetup" where
  "cachedOrLocate sys binaryName s =
     (case binaryLocation s binaryName of
        Some loc \<Rightarrow> if loc \<noteq> [] then (loc, s) else getBinaryLocation sys binaryName s
      | None \<Rightarrow> getBinaryLocation sys binaryName s)"

fun checkBinariesWorking_loop ::
  "'w sys \<Rightarrow> SdkBinary list \<Rightarrow> SdkBinary list \<Rightarrow> 'w AndroidSetup \<Rightarrow> SdkBinary list \<times> 'w AndroidSetup" where
  "checkBinariesWorking_loop sys [] nonWorkingBinaries s = (nonWorkingBinaries, s)"
| "checkBinariesWorking_loop sys (binaryName # rest) nonWorkingBinaries s =
     (case cachedOrLocate sys binaryName s of
        (binaryPath, s1) \<Rightarrow>
          if binaryPath \<noteq> [] then
            (case execBinary sys binaryPath (binName binaryName) (smokeTestArgs binaryName) s1 of
               (binaryWorking, s2) \<Rightarrow>
                 checkBinariesWorking_loop sys rest
                   (if binaryWorking = [] then nonWorkingBinaries @ [binaryName]
                    else nonWorkingBinaries) s2)
          else checkBinariesWorking_loop sys rest (nonWorkingBinaries @ [binaryName]) s1)"

definition checkBinariesWorking ::
  "'w sys \<Rightarrow> SdkBinary list \<Rightarrow> 'w AndroidSetup \<Rightarrow> SdkBinary list \<times> 'w AndroidSetup" where
  "checkBinariesWorking sys binaries s = checkBinariesWorking_loop sys binaries [] s"

text \<open>\<open>verifyAvdPresent\<close>, lines 277 to 291.\<close>

definition avdListed :: "string \<Rightarrow> string \<Rightarrow> bool" where
  "avdListed avdName stdout =
     (let workingAvds = filter (\<lambda>avd. \<not> str_includes avd ''Error: '') (str_split stdout ''---------'')
      in filter (\<lambda>avd. str_includes avd avdName) workingAvds \<noteq> [])"

definition verifyAvdPresent :: "'w sys \<Rightarrow> 'w AndroidSetup \<Rightarrow> bool \<times> 'w AndroidSetup" where
  "verifyAvdPresent sys s =
     (case getBinaryLocation sys Avdmanager s of
        (loc, s1) \<Rightarrow>
          (case execBinary sys loc ''avdmanager'' ''list avd'' s1 of
             (stdout, s2) \<Rightarrow> (avdListed (NIGHTWATCH_AVD sys) stdout, s2)))"

text \<open>\<open>verifyAdbRunning\<close>, lines 293 to 314.\<close>

definition verifyAdbRunning :: "'w sys \<Rightarrow> 'w AndroidSetup \<Rightarrow> 'w AndroidSetup" where
  "verifyAdbRunning sys s =
     (case getBinaryLocation sys Adb s of
        (adbLocation, s1) \<Rightarrow>
          if adbLocation = [] then s1
          else snd (execBinary sys adbLocation ''adb'' ''devices'' s1))"

text \<open>
  \<open>verifySetup\<close>, lines 316 to 385, in two parts: the presence pass with the check of
  the platforms directory (lines 327 to 349), then the virtual-device pass, the
  functional pass and the closing adb check.
\<close>

definition requiredBinariesFor :: "SetupConfigs \<Rightarrow> SdkBinary list" where
  "requiredBinariesFor setupConfigs =
     (if mode setupConfigs \<noteq> Some ModeReal then [Adb, Avdmanager, Emulator] else [Adb])"

definition verifyPresence ::
  "'w sys \<Rightarrow> SetupConfigs \<Rightarrow> 'w AndroidSetup \<Rightarrow> (SdkBinary list \<times> string list) \<times> 'w AndroidSetup" where
  "verifyPresence sys setupConfigs s =
     (let requiredBinaries = requiredBinariesFor setupConfigs
      in case checkBinariesPresent sys requiredBinaries s of
        (missingBinaries, s1) \<Rightarrow>
          (let missingRequirements = map binName missingBinaries
           in if Emulator \<in> set requiredBinaries then
                (case existsSync sys (path_join sys [sdkRoot s1, ''platforms'']) s1 of
                   (found, s2) \<Rightarrow>
                     ((missingBinaries,
                       if found then missingRequirements else missingRequirements @ [''platforms'']), s2))
              else ((missingBinaries, missingRequirements), s1)))"

definition binariesPresent :: "SdkBinary list \<Rightarrow> SdkBinary list \<Rightarrow> SdkBinary list" where
  "binariesPresent requiredBinaries missingBinaries =
     filter (\<lambda>binary. binary \<notin> set missingBinaries) requiredBinaries"

definition verifySetup ::
  "'w sys \<Rightarrow> SetupConfigs \<Rightarrow> 'w AndroidSetup \<Rightarrow> string list \<times> 'w AndroidSetup" where
  "verifySetup sys setupConfigs s =
     (case verifyPresence sys setupConfigs s of
        ((missingBinaries, missing1), s2) \<Rightarrow>
          (case verifyAvdPresent sys s2 of
             (avdPresent, s3) \<Rightarrow>
               (let missing2 = (if avdPresent then missing1 else missing1 @ [NIGHTWATCH_AVD sys]);
                    present = binariesPresent (requiredBinariesFor setupConfigs) missingBinaries
                in case (if present \<noteq> [] then checkBinariesWorking sys present s3 else ([], s3)) of
                  (nonWorkingBinaries, s4) \<Rightarrow>
                    (let missingRequirements = missing2 @ map binName nonWorkingBinaries
                     in (missingRequirements,
                         if missingRequirements = [] then verifyAdbRunning sys s4 else s4)))))"

text \<open>
  \<open>setupAndroid\<close>, lines 387 to 473, in the order of the source: the bootstrap, the
  package installer, the platforms directory, the virtual device, the adb check.
  \<open>splice\<close> removes the first occurrence of avdmanager; the packages are those of the
  remaining requirements that are keys of \<open>BINARY_TO_PACKAGE_NAME\<close>.
\<close>

definition packagesToInstall :: "'w sys \<Rightarrow> string list \<Rightarrow> string list" where
  "packagesToInstall sys missingRequirements =
     map (\<lambda>binary. case map_of (BINARY_TO_PACKAGE_NAME sys) binary of Some p \<Rightarrow> p | None \<Rightarrow> [])
       (filter (\<lambda>requirement. requirement \<in> set (map fst (BINARY_TO_PACKAGE_NAME sys)))
          missingRequirements)"

definition createAvdArgs :: "'w sys \<Rightarrow> string" where
  "createAvdArgs sys =
     ''create avd --force --name \"'' @ NIGHTWATCH_AVD sys
       @ ''\" --package \"system-images;android-30;google_apis;'' @ getAbiForOS sys
       @ ''\" --device \"pixel_5\"''"

text \<open>Lines 400 to 413: the check of sdkmanager and the download of the command-line tools.\<close>

definition setupAndroid_bootstrap ::
  "'w sys \<Rightarrow> string list \<Rightarrow> 'w AndroidSetup \<Rightarrow> string list \<times> 'w AndroidSetup" where
  "setupAndroid_bootstrap sys missingRequirements s =
     (case checkBinariesWorking sys [Sdkmanager] s of
        (nonWorking, s1) \<Rightarrow>
          (let sdkManagerWorking = (nonWorking = [])
           in if \<not> sdkManagerWorking \<or> ''avdmanager'' \<in> set missingRequirements
              then (remove1 ''avdmanager'' missingRequirements, download sys s1)
              else (missingRequirements, s1)))"

text \<open>Lines 415 to 423: one call of the package installer.\<close>

definition setupAndroid_install ::
  "'w sys \<Rightarrow> string list \<Rightarrow> 'w AndroidSetup \<Rightarrow> bool \<times> 'w AndroidSetup" where
  "setupAndroid_install sys missingRequirements s =
     (case getBinaryLocation sys Sdkmanager s of
        (sdkmanagerLocation, s1) \<Rightarrow>
          install sys sdkmanagerLocation (packagesToInstall sys missingRequirements) s1)"

text \<open>Lines 425 to 435: the platforms directory; a failing \<open>mkdirSync\<close> is caught and ignored.\<close>

definition setupAndroid_platforms ::
  "'w sys \<Rightarrow> string list \<Rightarrow> 'w AndroidSetup \<Rightarrow> 'w AndroidSetup" where
  "setupAndroid_platforms sys missingRequirements s =
     (if ''platforms'' \<in> set missingRequirements
      then snd (mkdirSync sys (path_join sys [sdkRoot s, ''platforms'']) s)
      else s)"

text \<open>Lines 437 to 453: the virtual device is looked for again and created when absent.\<close>

definition setupAndroid_avd ::
  "'w sys \<Rightarrow> bool \<Rightarrow> 'w AndroidSetup \<Rightarrow> bool \<times> 'w AndroidSetup" where
  "setupAndroid_avd sys result s =
     (case verifyAvdPresent sys s of
        (avdPresent, s1) \<Rightarrow>
          if \<not> avdPresent then
            (case getBinaryLocation sys Avdmanager s1 of
               (avdmanagerLocation, s2) \<Rightarrow>
                 (case execBinary sys avdmanagerLocation ''avdmanager'' (createAvdArgs sys) s2 of
                    (avdCreated, s3) \<Rightarrow> (if avdCreated \<noteq> [] then result else False, s3)))
          else (result, s1))"

definition setupAndroid ::
  "'w sys \<Rightarrow> SetupConfigs \<Rightarrow> string list \<Rightarrow> 'w AndroidSetup \<Rightarrow> bool \<times> 'w AndroidSetup" where
  "setupAndroid sys setupConfigs missingRequirements s =
     (if missingRequirements = [] then (True, s)
      else
        case setupAndroid_bootstrap sys missingRequirements s of
          (missing', s1) \<Rightarrow>
            (case setupAndroid_install sys missing' s1 of
               (result, s2) \<Rightarrow>
                 (case setupAndroid_avd sys result (setupAndroid_platforms sys missing' s2) of
                    (result', s3) \<Rightarrow> (result', verifyAdbRunning sys s3))))"

text \<open>\<open>run\<close>, lines 29 to 53.\<close>

definition run :: "'w sys \<Rightarrow> 'w AndroidSetup \<Rightarrow> bool \<times> 'w AndroidSetup" where
  "run sys s =
     (if opt_help (options s) then (True, s)
      else
        (let s1 = s\<lparr>sdkRoot := getSdkRoot sys s\<rparr>
         in if sdkRoot s1 = [] then (False, s1)
            else
              case getSetupConfigs sys (options s1) s1 of
                (setupConfigs, s2) \<Rightarrow>
                  (case verifySetup sys setupConfigs s2 of
                     (missingRequirements, s3) \<Rightarrow>
                       if opt_setup (options s3) then setupAndroid sys setupConfigs missingRequirements s3
                       else if missingRequirements \<noteq> [] then (False, s3)
                       else (True, s3))))"

section \<open>A sample host\<close>

text \<open>
  A concrete host, for evaluating the methods: a list of existing paths, the names found
  on the PATH, a table from command lines to their output (a command that is not in the
  table fails), and the outcome of directory creation and of the package installer.
  Its path functions are the POSIX ones on paths that need no normalisation.
\<close>

record host =
  host_home :: "string option"
  host_files :: "string list"
  host_path :: "string list"
  host_exec :: "(string \<times> string) list"
  host_mkdir_ok :: bool
  host_install_ok :: bool

fun joinWith :: "string \<Rightarrow> string list \<Rightarrow> string" where
  "joinWith sep [] = []"
| "joinWith sep [p] = p"
| "joinWith sep (p # q # ps) = p @ sep @ joinWith sep (q # ps)"

definition posix_join :: "string list \<Rightarrow> string" where
  "posix_join segs =
     (let parts = filter (\<lambda>p. p \<noteq> []) segs
      in if parts = [] then ''.'' else joinWith ''/'' parts)"

definition posix_basename :: "string \<Rightarrow> string" where
  "posix_basename p = rev (takeWhile (\<lambda>c. c \<noteq> CHR ''/'') (rev p))"

definition posix_dirname :: "string \<Rightarrow> string" where
  "posix_dirname p =
     (let d = rev (drop 1 (dropWhile (\<lambda>c. c \<noteq> CHR ''/'') (rev p)))
      in if d \<noteq> [] then d else if CHR ''/'' \<in> set p then ''/'' else ''.'')"

text \<open>
  Modelled from the spec: the tables of \<open>./constants\<close> and the helpers of \<open>./utils\<close> are
  not in the source file. The keys of the package table are those of the cast on line
  417 (the binaries and the virtual device, whose package is its system image); the
  prompt fills a missing mode with \<open>both\<close> and a missing browser choice with \<open>none\<close>.
\<close>

definition sample_avd :: string where
  "sample_avd = ''nightwatch-android-11''"

definition sample_packages :: "(string \<times> string) list" where
  "sample_packages =
     [(''adb'', ''platform-tools''),
      (''avdmanager'', ''cmdline-tools;latest''),
      (''sdkmanager'', ''cmdline-tools;latest''),
      (''emulator'', ''emulator''),
      (sample_avd, ''system-images;android-30;google_apis;x86_64'')]"

fun sample_locations :: "SdkBinary \<Rightarrow> string" where
  "sample_locations Adb = ''platform-tools''"
| "sample_locations Avdmanager = ''cmdline-tools/latest/bin''"
| "sample_locations Emulator = ''emulator''"
| "sample_locations Sdkmanager = ''cmdline-tools/latest/bin''"

definition sample_prompt :: "SetupConfigs \<Rightarrow> SetupConfigs" where
  "sample_prompt configs =
     \<lparr>mode = (case mode configs of None \<Rightarrow> Some ModeBoth | Some m \<Rightarrow> Some m),
      browsers = (case browsers configs of None \<Rightarrow> Some BrowsersNone | Some b \<Rightarrow> Some b)\<rparr>"

definition sample_sys :: "host sys" where
  "sample_sys =
     \<lparr>process_env_ANDROID_HOME = host_home,
      fs_existsSync = (\<lambda>w p. p \<in> set (host_files w)),
      which_sync = (\<lambda>w n. n \<in> set (host_path w)),
      child_process_execSync = (\<lambda>w cmd dir. (map_of (host_exec w) cmd, w)),
      fs_mkdirSync = (\<lambda>w p. if host_mkdir_ok w then (True, w\<lparr>host_files := p # host_files w\<rparr>)
                              else (False, w)),
      downloadAndSetupAndroidSdk = (\<lambda>w root plat. w),
      installPackagesUsingSdkManager = (\<lambda>w loc plat pkgs. (host_install_ok w, w)),
      inquirer_prompt = (\<lambda>w configs. (sample_prompt configs, w)),
      path_join = posix_join,
      path_basename = posix_basename,
      path_dirname = posix_dirname,
      getBinaryNameForOS = (\<lambda>plat name. name),
      getAbiForOS = ''x86_64'',
      SDK_BINARY_LOCATIONS = sample_locations,
      BINARY_TO_PACKAGE_NAME = sample_packages,
      NIGHTWATCH_AVD = sample_avd\<rparr>"

text \<open>A host with nothing installed: no SDK files, an empty PATH, every command fails.\<close>

definition bare_host :: host where
  "bare_host =
     \<lparr>host_home = Some ''/opt/sdk'', host_files = [], host_path = [], host_exec = [],
      host_mkdir_ok = True, host_install_ok = True\<rparr>"

definition plain_options :: Options where
  "plain_options = \<lparr>opt_help = False, opt_setup = False, opt_mode = None, opt_browsers = None\<rparr>"

definition both_configs :: SetupConfigs where
  "both_configs = \<lparr>mode = Some ModeBoth, browsers = Some BrowsersNone\<rparr>"

text \<open>A host whose avdmanager lists a broken device and the expected one.\<close>

definition listing_host :: host where
  "listing_host =
     \<lparr>host_home = Some ''/opt/sdk'',
      host_files = [''/opt/sdk/cmdline-tools/latest/bin/avdmanager''],
      host_path = [],
      host_exec = [(''./avdmanager list avd'',
        ''Available Android Virtual Devices: --------- Name: broken Error: missing image --------- Name: nightwatch-android-11 Device: pixel_5 ---------'')],
      host_mkdir_ok = True, host_install_ok = True\<rparr>"

text \<open>A run whose SDK root has been resolved to \<open>/opt/sdk\<close>.\<close>

definition started :: "Options \<Rightarrow> host \<Rightarrow> host AndroidSetup" where
  "started opts w = (constructor opts ''/home/user'' Linux w)\<lparr>sdkRoot := ''/opt/sdk''\<rparr>"

text \<open>
  A host with the four binaries installed and working, no virtual device and no
  platforms directory.
\<close>

definition sdk_host :: host where
  "sdk_host =
     \<lparr>host_home = Some ''/opt/sdk'',
      host_files = [''/opt/sdk/platform-tools/adb'',
                    ''/opt/sdk/cmdline-tools/latest/bin/avdmanager'',
                    ''/opt/sdk/emulator/emulator'',
                    ''/opt/sdk/cmdline-tools/latest/bin/sdkmanager''],
      host_path = [],
      host_exec = [(''./adb --version'', ''Android Debug Bridge version 1.0.41''),
                   (''./avdmanager list avd'', ''Available Android Virtual Devices:''),
                   (''./emulator -version'', ''Android emulator version 31.2.10''),
                   (''./sdkmanager --version'', ''9.0''),
                   (''./avdmanager '' @ createAvdArgs sample_sys, ''Do you wish to create a custom hardware profile? [no]''),
                   (''./adb devices'', ''List of devices attached'')],
      host_mkdir_ok = True, host_install_ok = True\<rparr>"

section \<open>Notions used in the statements\<close>

text \<open>The external calls made between two states of a run.\<close>

definition newEvents :: "'w AndroidSetup \<Rightarrow> 'w AndroidSetup \<Rightarrow> event list" where
  "newEvents s s' = drop (length (trace s)) (trace s')"

text \<open>What \<open>execSync\<close> answers to the call that \<open>execBinary\<close> makes in state \<open>s\<close>.\<close>

definition execResult :: "'w sys \<Rightarrow> string \<Rightarrow> string \<Rightarrow> string \<Rightarrow> 'w AndroidSetup \<Rightarrow> string option" where
  "execResult sys loc n a s =
     fst (child_process_execSync sys (world s) (execCommand sys (platform s) loc n a) (execCwd sys loc))"

text \<open>The text that \<open>verifyAvdPresent\<close> parses: the output of its \<open>list avd\<close> call.\<close>

definition avdListing :: "'w sys \<Rightarrow> 'w AndroidSetup \<Rightarrow> string" where
  "avdListing sys s =
     fst (execBinary sys (fst (getBinaryLocation sys Avdmanager s)) ''avdmanager'' ''list avd''
            (snd (getBinaryLocation sys Avdmanager s)))"

text \<open>
  A record of a listing that, followed by the separator, holds no separator before that
  one (eight dashes are the separator without its last character).
\<close>

definition plainRecord :: "string \<Rightarrow> bool" where
  "plainRecord r = (\<not> str_includes (r @ ''--------'') ''---------'')"

text \<open>Kinds of external calls.\<close>

fun isMkdir :: "event \<Rightarrow> bool" where
  "isMkdir (EvMkdir p ok) = True"
| "isMkdir e = False"

fun isInstall :: "event \<Rightarrow> bool" where
  "isInstall (EvInstall loc plat pkgs ok) = True"
| "isInstall e = False"

fun isDownload :: "event \<Rightarrow> bool" where
  "isDownload (EvDownload root plat) = True"
| "isDownload e = False"

fun isExecOf :: "string \<Rightarrow> event \<Rightarrow> bool" where
  "isExecOf a (EvExec n args cmd dir out) = (args = a)"
| "isExecOf a e = False"

fun isExecBy :: "string \<Rightarrow> event \<Rightarrow> bool" where
  "isExecBy name (EvExec n args cmd dir out) = (n = name)"
| "isExecBy name e = False"

text \<open>
  A step of the remediation that reported a failure: the installer returned false, or
  the creation of the virtual device threw or printed nothing.
\<close>

fun stepFailed :: "'w sys \<Rightarrow> event \<Rightarrow> bool" where
  "stepFailed sys (EvInstall loc plat pkgs ok) = (\<not> ok)"
| "stepFailed sys (EvExec n args cmd dir out) =
     (args = createAvdArgs sys \<and> (out = None \<or> out = Some []))"
| "stepFailed sys e = False"

text \<open>A \<open>list avd\<close> call whose output lists the device.\<close>

fun listingShows :: "string \<Rightarrow> event \<Rightarrow> bool" where
  "listingShows avdName (EvExec n args cmd dir out) =
     (args = ''list avd'' \<and> avdListed avdName (case out of Some stdout \<Rightarrow> stdout | None \<Rightarrow> []))"
| "listingShows avdName e = False"

text \<open>The \<open>list avd\<close> call of \<open>verifyAvdPresent\<close>, as it appears in the trace.\<close>

definition avdListEvent :: "'w sys \<Rightarrow> 'w AndroidSetup \<Rightarrow> event" where
  "avdListEvent sys s =
     (let loc = fst (getBinaryLocation sys Avdmanager s);
          s1 = snd (getBinaryLocation sys Avdmanager s)
      in EvExec ''avdmanager'' ''list avd'' (execCommand sys (platform s) loc ''avdmanager'' ''list avd'')
           (execCwd sys loc) (execResult sys loc ''avdmanager'' ''list avd'' s1))"

text \<open>The call of the installer, as it appears in the trace.\<close>

definition installEvent :: "'w sys \<Rightarrow> string list \<Rightarrow> 'w AndroidSetup \<Rightarrow> event" where
  "installEvent sys m s =
     EvInstall (fst (getBinaryLocation sys Sdkmanager s)) (platform s) (packagesToInstall sys m)
       (fst (setupAndroid_install sys m s))"

text \<open>The call that creates the virtual device, as it appears in the trace.\<close>

definition createEvent :: "'w sys \<Rightarrow> 'w AndroidSetup \<Rightarrow> event" where
  "createEvent sys s =
     (let s1 = snd (verifyAvdPresent sys s);
          loc = fst (getBinaryLocation sys Avdmanager s1);
          s2 = snd (getBinaryLocation sys Avdmanager s1)
      in EvExec ''avdmanager'' (createAvdArgs sys)
           (execCommand sys (platform s) loc ''avdmanager'' (createAvdArgs sys)) (execCwd sys loc)
           (execResult sys loc ''avdmanager'' (createAvdArgs sys) s2))"

text \<open>
  Two states of the same host: the same world, SDK root and platform, and the same cache
  entries for the binaries of \<open>A\<close>. The rest of the cache and the trace may differ.
\<close>

definition agreeOn :: "SdkBinary set \<Rightarrow> 'w AndroidSetup \<Rightarrow> 'w AndroidSetup \<Rightarrow> bool" where
  "agreeOn A s t =
     (world s = world t \<and> sdkRoot s = sdkRoot t \<and> platform s = platform t
      \<and> (\<forall>b\<in>A. binaryLocation s b = binaryLocation t b))"

text \<open>
  The locations that \<open>getBinaryLocation\<close> probes for a binary under an SDK root: the
  location of the table and, for adb only, the SDK root itself.
\<close>

definition candidateLocations :: "'w sys \<Rightarrow> string \<Rightarrow> Platform \<Rightarrow> SdkBinary \<Rightarrow> string list" where
  "candidateLocations sys root plat b =
     path_join sys [root, SDK_BINARY_LOCATIONS sys b, getBinaryNameForOS sys plat (binName b)]
       # (if b = Adb then [path_join sys [root, getBinaryNameForOS sys plat (binName b)]] else [])"

text \<open>
  A cache entry \<open>loc\<close> for the binary \<open>b\<close> is justified by a trace when it is not empty
  and a lookup of \<open>b\<close> itself has found it: either \<open>loc\<close> is one of the locations probed
  for \<open>b\<close> under an SDK root of the run and the trace holds the probe that found it to
  exist, or \<open>b\<close> is adb, \<open>loc\<close> is the sentinel \<open>PATH\<close> and the trace holds the
  successful PATH lookup of adb's file name.
\<close>

definition entryJustified ::
  "'w sys \<Rightarrow> string set \<Rightarrow> Platform \<Rightarrow> event list \<Rightarrow> SdkBinary \<Rightarrow> string \<Rightarrow> bool" where
  "entryJustified sys roots plat tr b loc =
     (loc \<noteq> []
      \<and> ((\<exists>root\<in>roots. loc \<in> set (candidateLocations sys root plat b))
            \<and> EvExists loc True \<in> set tr
          \<or> b = Adb \<and> loc = ''PATH''
            \<and> EvWhich (getBinaryNameForOS sys plat (binName Adb)) True \<in> set tr))"

text \<open>
  The invariant of the cache, for the SDK roots that the instance has had: every entry
  is justified by the trace of the run.
\<close>

definition cacheJustified :: "'w sys \<Rightarrow> string set \<Rightarrow> 'w AndroidSetup \<Rightarrow> bool" where
  "cacheJustified sys roots s =
     (\<forall>b. case binaryLocation s b of
             None \<Rightarrow> True
           | Some loc \<Rightarrow> entryJustified sys roots (platform s) (trace s) b loc)"

section \<open>Properties of the model\<close>

declare str_split_from.simps [simp del]

subsection \<open>String operations\<close>

lemma str_includes_sublist: "str_includes s sub = sublist sub s"
  by (induction s) (auto simp: sublist_Cons_right)

lemma str_split_from_nonempty: "str_split_from sep acc s \<noteq> []"
  by (induction sep acc s rule: str_split_from.induct) (subst str_split_from.simps, simp)

lemma joinWith_Cons: "ps \<noteq> [] \<Longrightarrow> joinWith sep (p # ps) = p @ sep @ joinWith sep ps"
  by (cases ps) simp_all

lemma joinWith_str_split_from:
  "joinWith sep (str_split_from sep acc s) = rev acc @ s"
proof (induction sep acc s rule: str_split_from.induct)
  case (1 sep acc s)
  show ?case
  proof (cases "s = []")
    case True
    then show ?thesis by (subst str_split_from.simps) simp
  next
    case False
    note ne = this
    show ?thesis
    proof (cases "sep \<noteq> [] \<and> prefix sep s")
      case True
      then obtain t where t: "s = sep @ t" by (auto simp: prefix_def)
      from True ne "1.IH"(1) have "joinWith sep (str_split_from sep [] (drop (length sep) s)) = drop (length sep) s"
        by simp
      with True ne t show ?thesis
        by (subst str_split_from.simps) (simp add: joinWith_Cons str_split_from_nonempty)
    next
      case False
      with ne "1.IH"(2) have "joinWith sep (str_split_from sep (hd s # acc) (tl s)) = rev (hd s # acc) @ tl s"
        by blast
      with False ne show ?thesis
        by (subst str_split_from.simps) (cases s, auto)
    qed
  qed
qed

lemma joinWith_str_split: "sep \<noteq> [] \<Longrightarrow> joinWith sep (str_split s sep) = s"
  by (simp add: str_split_def joinWith_str_split_from)

lemma str_split_from_piece:
  assumes "sep \<noteq> []" and "\<forall>n<length x. \<not> prefix sep (drop n x @ sep @ rest)"
  shows "str_split_from sep acc (x @ sep @ rest) = (rev acc @ x) # str_split_from sep [] rest"
  using assms
proof (induction x arbitrary: acc)
  case Nil
  then show ?case by (subst str_split_from.simps) simp
next
  case (Cons c x)
  from Cons.prems(2) have "\<not> prefix sep ((c # x) @ sep @ rest)" by force
  moreover have "\<forall>n<length x. \<not> prefix sep (drop n x @ sep @ rest)"
  proof (intro allI impI)
    fix n assume "n < length x"
    then have "Suc n < length (c # x)" by simp
    with Cons.prems(2) have "\<not> prefix sep (drop (Suc n) (c # x) @ sep @ rest)" by blast
    then show "\<not> prefix sep (drop n x @ sep @ rest)" by simp
  qed
  ultimately show ?case
    using Cons.IH[of "c # acc"] Cons.prems(1)
    by (subst str_split_from.simps) simp
qed

lemma str_includes_drop: "str_includes (drop n s) sub \<Longrightarrow> str_includes s sub"
  by (simp add: str_includes_sublist) (metis append_take_drop_id sublist_append_leftI sublist_order.order.trans)

lemma no_separator_inside:
  assumes "sep \<noteq> []" and "\<not> str_includes (x @ butlast sep) sep"
  shows "\<forall>n<length x. \<not> prefix sep (drop n x @ sep @ rest)"
proof (intro allI impI notI)
  fix n assume n: "n < length x" and p: "prefix sep (drop n x @ sep @ rest)"
  let ?d = "drop n x"
  have "prefix (?d @ butlast sep) (?d @ sep @ rest)"
    using assms(1) by (simp add: prefix_def) (metis append_butlast_last_id append_assoc)
  moreover have "length sep \<le> length (?d @ butlast sep)"
    using n assms(1) by simp
  ultimately have "prefix sep (?d @ butlast sep)"
    using p by (rule prefix_length_prefix[rotated])
  then have "str_includes (?d @ butlast sep) sep"
    by (cases "?d @ butlast sep") auto
  then have "str_includes (drop n (x @ butlast sep)) sep"
    using n by simp
  then have "str_includes (x @ butlast sep) sep" by (rule str_includes_drop)
  with assms(2) show False by simp
qed

lemma str_split_piece:
  assumes "sep \<noteq> []" and "\<not> str_includes (x @ butlast sep) sep"
  shows "str_split (x @ sep @ rest) sep = x # str_split rest sep"
  using str_split_from_piece[of sep x rest "[]"] no_separator_inside[OF assms, of rest] assms(1)
  by (simp add: str_split_def)

lemma str_split_Nil: "sep \<noteq> [] \<Longrightarrow> str_split [] sep = [[]]"
  by (simp add: str_split_def str_split_from.simps)

lemma str_split_three_generic:
  assumes "sep \<noteq> []"
    and "\<not> str_includes (r1 @ butlast sep) sep"
    and "\<not> str_includes (r2 @ butlast sep) sep"
    and "\<not> str_includes (r3 @ butlast sep) sep"
  shows "str_split (r1 @ sep @ r2 @ sep @ r3 @ sep) sep = [r1, r2, r3, []]"
proof -
  have "str_split (r3 @ sep @ []) sep = [r3, []]"
    using str_split_piece[OF assms(1,4), of "[]"] str_split_Nil[OF assms(1)] by simp
  then have "str_split (r2 @ sep @ r3 @ sep) sep = [r2, r3, []]"
    using assms(1,3) by (simp add: str_split_piece)
  then show ?thesis
    using assms(1,2) by (simp add: str_split_piece)
qed

lemma str_split_three:
  assumes "plainRecord r1" "plainRecord r2" "plainRecord r3"
  shows "str_split (r1 @ ''---------'' @ r2 @ ''---------'' @ r3 @ ''---------'') ''---------''
           = [r1, r2, r3, []]"
  using str_split_three_generic[of "''---------''" r1 r2 r3] assms
  by (simp add: plainRecord_def)

subsection \<open>External calls: frame and trace\<close>

lemma existsSync_simps [simp]:
  "fst (existsSync sys p s) = fs_existsSync sys (world s) p"
  "snd (existsSync sys p s) = s\<lparr>trace := trace s @ [EvExists p (fs_existsSync sys (world s) p)]\<rparr>"
  by (simp_all add: existsSync_def Let_def)

lemma whichSync_simps [simp]:
  "fst (whichSync sys n s) = which_sync sys (world s) n"
  "snd (whichSync sys n s) = s\<lparr>trace := trace s @ [EvWhich n (which_sync sys (world s) n)]\<rparr>"
  by (simp_all add: whichSync_def Let_def)

lemma mkdirSync_simps [simp]:
  "fst (mkdirSync sys p s) = fst (fs_mkdirSync sys (world s) p)"
  "snd (mkdirSync sys p s) =
     s\<lparr>world := snd (fs_mkdirSync sys (world s) p),
       trace := trace s @ [EvMkdir p (fst (fs_mkdirSync sys (world s) p))]\<rparr>"
  by (simp_all add: mkdirSync_def case_prod_beta)

lemma install_simps [simp]:
  "fst (install sys loc pkgs s) = fst (installPackagesUsingSdkManager sys (world s) loc (platform s) pkgs)"
  "snd (install sys loc pkgs s) =
     s\<lparr>world := snd (installPackagesUsingSdkManager sys (world s) loc (platform s) pkgs),
       trace := trace s @ [EvInstall loc (platform s) pkgs
                  (fst (installPackagesUsingSdkManager sys (world s) loc (platform s) pkgs))]\<rparr>"
  by (simp_all add: install_def case_prod_beta)

lemma prompt_simps [simp]:
  "fst (prompt sys c s) = fst (inquirer_prompt sys (world s) c)"
  "snd (prompt sys c s) =
     s\<lparr>world := snd (inquirer_prompt sys (world s) c),
       trace := trace s @ [EvPrompt c (fst (inquirer_prompt sys (world s) c))]\<rparr>"
  by (simp_all add: prompt_def case_prod_beta)

lemma execBinary_fst [simp]:
  "fst (execBinary sys loc n a s) = (case execResult sys loc n a s of Some out \<Rightarrow> out | None \<Rightarrow> [])"
  by (simp add: execBinary_def execResult_def Let_def case_prod_beta)

lemma execBinary_frame [simp]:
  "sdkRoot (snd (execBinary sys loc n a s)) = sdkRoot s"
  "options (snd (execBinary sys loc n a s)) = options s"
  "platform (snd (execBinary sys loc n a s)) = platform s"
  "cwd (snd (execBinary sys loc n a s)) = cwd s"
  "binaryLocation (snd (execBinary sys loc n a s)) = binaryLocation s"
  by (simp_all add: execBinary_def Let_def case_prod_beta)

lemma execBinary_trace [simp]:
  "trace (snd (execBinary sys loc n a s)) =
     trace s @ [EvExec n a (execCommand sys (platform s) loc n a) (execCwd sys loc) (execResult sys loc n a s)]"
  by (simp add: execBinary_def execResult_def Let_def case_prod_beta)

lemma execBinary_world:
  "\<forall>c d. snd (child_process_execSync sys (world s) c d) = world s \<Longrightarrow>
   world (snd (execBinary sys loc n a s)) = world s"
  by (simp add: execBinary_def Let_def case_prod_beta)

subsection \<open>getBinaryLocation\<close>

lemma getBinaryLocation_frame [simp]:
  "sdkRoot (snd (getBinaryLocation sys b s)) = sdkRoot s"
  "options (snd (getBinaryLocation sys b s)) = options s"
  "platform (snd (getBinaryLocation sys b s)) = platform s"
  "cwd (snd (getBinaryLocation sys b s)) = cwd s"
  "world (snd (getBinaryLocation sys b s)) = world s"
  by (simp_all add: getBinaryLocation_def Let_def case_prod_beta)

lemma getBinaryLocation_filter [simp]:
  assumes "\<And>p r. \<not> Q (EvExists p r)" and "\<And>n r. \<not> Q (EvWhich n r)"
  shows "filter Q (trace (snd (getBinaryLocation sys b s))) = filter Q (trace s)"
  using assms by (simp add: getBinaryLocation_def Let_def case_prod_beta)

lemma getBinaryLocation_prefix [simp]:
  "prefix xs (trace s) \<Longrightarrow> prefix xs (trace (snd (getBinaryLocation sys b s)))"
  by (simp add: getBinaryLocation_def Let_def case_prod_beta)

lemma getBinaryLocation_cache_other:
  "b' \<noteq> b \<Longrightarrow> binaryLocation (snd (getBinaryLocation sys b s)) b' = binaryLocation s b'"
  by (auto simp add: getBinaryLocation_def Let_def case_prod_beta)

lemma getBinaryLocation_cache_found:
  "fst (getBinaryLocation sys b s) \<noteq> [] \<Longrightarrow>
   binaryLocation (snd (getBinaryLocation sys b s)) b = Some (fst (getBinaryLocation sys b s))"
  by (auto simp add: getBinaryLocation_def Let_def case_prod_beta split: if_splits)

subsection \<open>Iteration over the binaries\<close>

lemma cachedOrLocate_frame [simp]:
  "sdkRoot (snd (cachedOrLocate sys b s)) = sdkRoot s"
  "options (snd (cachedOrLocate sys b s)) = options s"
  "platform (snd (cachedOrLocate sys b s)) = platform s"
  "cwd (snd (cachedOrLocate sys b s)) = cwd s"
  "world (snd (cachedOrLocate sys b s)) = world s"
  by (simp_all add: cachedOrLocate_def split: option.splits)

lemma cachedOrLocate_filter [simp]:
  assumes "\<And>p r. \<not> Q (EvExists p r)" and "\<And>n r. \<not> Q (EvWhich n r)"
  shows "filter Q (trace (snd (cachedOrLocate sys b s))) = filter Q (trace s)"
  using assms by (simp add: cachedOrLocate_def split: option.splits)

lemma cachedOrLocate_prefix [simp]:
  "prefix xs (trace s) \<Longrightarrow> prefix xs (trace (snd (cachedOrLocate sys b s)))"
  by (simp add: cachedOrLocate_def split: option.splits)

lemma checkBinariesPresent_loop_frame [simp]:
  "sdkRoot (snd (checkBinariesPresent_loop sys bs acc s)) = sdkRoot s"
  "options (snd (checkBinariesPresent_loop sys bs acc s)) = options s"
  "platform (snd (checkBinariesPresent_loop sys bs acc s)) = platform s"
  "cwd (snd (checkBinariesPresent_loop sys bs acc s)) = cwd s"
  "world (snd (checkBinariesPresent_loop sys bs acc s)) = world s"
  by (induction bs arbitrary: acc s; simp add: case_prod_beta)+

lemma checkBinariesPresent_loop_filter [simp]:
  assumes "\<And>p r. \<not> Q (EvExists p r)" and "\<And>n r. \<not> Q (EvWhich n r)"
  shows "filter Q (trace (snd (checkBinariesPresent_loop sys bs acc s))) = filter Q (trace s)"
  using assms by (induction bs arbitrary: acc s) (simp_all add: case_prod_beta)

lemma checkBinariesPresent_loop_prefix [simp]:
  "prefix xs (trace s) \<Longrightarrow> prefix xs (trace (snd (checkBinariesPresent_loop sys bs acc s)))"
  by (induction bs arbitrary: acc s) (simp_all add: case_prod_beta)

lemma checkBinariesWorking_loop_frame [simp]:
  "sdkRoot (snd (checkBinariesWorking_loop sys bs acc s)) = sdkRoot s"
  "options (snd (checkBinariesWorking_loop sys bs acc s)) = options s"
  "platform (snd (checkBinariesWorking_loop sys bs acc s)) = platform s"
  "cwd (snd (checkBinariesWorking_loop sys bs acc s)) = cwd s"
  by (induction bs arbitrary: acc s; simp add: case_prod_beta)+

lemma checkBinariesWorking_loop_filter [simp]:
  assumes "\<And>p r. \<not> Q (EvExists p r)" and "\<And>n r. \<not> Q (EvWhich n r)"
    and "\<And>b c d out. b \<in> set bs \<Longrightarrow> \<not> Q (EvExec (binName b) (smokeTestArgs b) c d out)"
  shows "filter Q (trace (snd (checkBinariesWorking_loop sys bs acc s))) = filter Q (trace s)"
  using assms by (induction bs arbitrary: acc s) (simp_all add: case_prod_beta)

lemma checkBinariesWorking_loop_prefix [simp]:
  "prefix xs (trace s) \<Longrightarrow> prefix xs (trace (snd (checkBinariesWorking_loop sys bs acc s)))"
  by (induction bs arbitrary: acc s) (simp_all add: case_prod_beta)

subsection \<open>The listing of virtual devices\<close>

lemma verifyAvdPresent_fst:
  "fst (verifyAvdPresent sys s) = avdListed (NIGHTWATCH_AVD sys) (avdListing sys s)"
  by (simp add: verifyAvdPresent_def avdListing_def case_prod_beta)

lemma avdListed_iff:
  "avdListed name out \<longleftrightarrow>
     (\<exists>r \<in> set (str_split out ''---------''). \<not> sublist ''Error: '' r \<and> sublist name r)"
  by (auto simp: avdListed_def Let_def filter_empty_conv str_includes_sublist)


subsection \<open>The checks\<close>

lemma checkBinariesPresent_frame [simp]:
  "sdkRoot (snd (checkBinariesPresent sys bs s)) = sdkRoot s"
  "options (snd (checkBinariesPresent sys bs s)) = options s"
  "platform (snd (checkBinariesPresent sys bs s)) = platform s"
  "cwd (snd (checkBinariesPresent sys bs s)) = cwd s"
  "world (snd (checkBinariesPresent sys bs s)) = world s"
  by (simp_all add: checkBinariesPresent_def)

lemma checkBinariesPresent_filter [simp]:
  assumes "\<And>p r. \<not> Q (EvExists p r)" and "\<And>n r. \<not> Q (EvWhich n r)"
  shows "filter Q (trace (snd (checkBinariesPresent sys bs s))) = filter Q (trace s)"
  using assms by (simp add: checkBinariesPresent_def)

lemma checkBinariesPresent_prefix [simp]:
  "prefix xs (trace s) \<Longrightarrow> prefix xs (trace (snd (checkBinariesPresent sys bs s)))"
  by (simp add: checkBinariesPresent_def)

lemma checkBinariesWorking_frame [simp]:
  "sdkRoot (snd (checkBinariesWorking sys bs s)) = sdkRoot s"
  "options (snd (checkBinariesWorking sys bs s)) = options s"
  "platform (snd (checkBinariesWorking sys bs s)) = platform s"
  "cwd (snd (checkBinariesWorking sys bs s)) = cwd s"
  by (simp_all add: checkBinariesWorking_def)

lemma checkBinariesWorking_filter [simp]:
  assumes "\<And>p r. \<not> Q (EvExists p r)" and "\<And>n r. \<not> Q (EvWhich n r)"
    and "\<And>b c d out. b \<in> set bs \<Longrightarrow> \<not> Q (EvExec (binName b) (smokeTestArgs b) c d out)"
  shows "filter Q (trace (snd (checkBinariesWorking sys bs s))) = filter Q (trace s)"
  using assms by (simp add: checkBinariesWorking_def)

lemma checkBinariesWorking_prefix [simp]:
  "prefix xs (trace s) \<Longrightarrow> prefix xs (trace (snd (checkBinariesWorking sys bs s)))"
  by (simp add: checkBinariesWorking_def)

lemma checkBinariesWorking_Nil [simp]: "checkBinariesWorking sys [] s = ([], s)"
  by (simp add: checkBinariesWorking_def)

lemma verifyAvdPresent_frame [simp]:
  "sdkRoot (snd (verifyAvdPresent sys s)) = sdkRoot s"
  "options (snd (verifyAvdPresent sys s)) = options s"
  "platform (snd (verifyAvdPresent sys s)) = platform s"
  "cwd (snd (verifyAvdPresent sys s)) = cwd s"
  by (simp_all add: verifyAvdPresent_def case_prod_beta)

lemma verifyAvdPresent_filter [simp]:
  assumes "\<And>p r. \<not> Q (EvExists p r)" and "\<And>n r. \<not> Q (EvWhich n r)"
  shows "filter Q (trace (snd (verifyAvdPresent sys s)))
           = filter Q (trace s) @ filter Q [avdListEvent sys s]"
  using assms by (simp add: verifyAvdPresent_def avdListEvent_def Let_def case_prod_beta)

lemma verifyAvdPresent_prefix [simp]:
  "prefix xs (trace s) \<Longrightarrow> prefix xs (trace (snd (verifyAvdPresent sys s)))"
  by (simp add: verifyAvdPresent_def case_prod_beta)

lemma listingShows_avdListEvent [simp]:
  "listingShows (NIGHTWATCH_AVD sys) (avdListEvent sys s) = fst (verifyAvdPresent sys s)"
  by (simp add: avdListEvent_def verifyAvdPresent_def case_prod_beta Let_def)

lemma avdListEvent_kind [simp]:
  "isExecOf a (avdListEvent sys s) = (a = ''list avd'')"
  "\<not> isMkdir (avdListEvent sys s)" "\<not> isInstall (avdListEvent sys s)"
  "\<not> isDownload (avdListEvent sys s)"
  by (auto simp add: avdListEvent_def Let_def)

lemma verifyAdbRunning_frame [simp]:
  "sdkRoot (verifyAdbRunning sys s) = sdkRoot s"
  "options (verifyAdbRunning sys s) = options s"
  "platform (verifyAdbRunning sys s) = platform s"
  "cwd (verifyAdbRunning sys s) = cwd s"
  by (simp_all add: verifyAdbRunning_def case_prod_beta)

lemma verifyAdbRunning_filter [simp]:
  assumes "\<And>p r. \<not> Q (EvExists p r)" and "\<And>n r. \<not> Q (EvWhich n r)"
    and "\<And>n c d out. \<not> Q (EvExec n ''devices'' c d out)"
  shows "filter Q (trace (verifyAdbRunning sys s)) = filter Q (trace s)"
  using assms by (simp add: verifyAdbRunning_def case_prod_beta)

lemma verifyAdbRunning_prefix [simp]:
  "prefix xs (trace s) \<Longrightarrow> prefix xs (trace (verifyAdbRunning sys s))"
  by (simp add: verifyAdbRunning_def case_prod_beta)

lemma verifyPresence_frame [simp]:
  "sdkRoot (snd (verifyPresence sys cfg s)) = sdkRoot s"
  "options (snd (verifyPresence sys cfg s)) = options s"
  "platform (snd (verifyPresence sys cfg s)) = platform s"
  "cwd (snd (verifyPresence sys cfg s)) = cwd s"
  "world (snd (verifyPresence sys cfg s)) = world s"
  by (simp_all add: verifyPresence_def Let_def case_prod_beta)

lemma verifyPresence_filter [simp]:
  assumes "\<And>p r. \<not> Q (EvExists p r)" and "\<And>n r. \<not> Q (EvWhich n r)"
  shows "filter Q (trace (snd (verifyPresence sys cfg s))) = filter Q (trace s)"
  using assms by (simp add: verifyPresence_def Let_def case_prod_beta)

lemma verifyPresence_prefix [simp]:
  "prefix xs (trace s) \<Longrightarrow> prefix xs (trace (snd (verifyPresence sys cfg s)))"
  by (simp add: verifyPresence_def Let_def case_prod_beta)

lemma verifySetup_frame [simp]:
  "sdkRoot (snd (verifySetup sys cfg s)) = sdkRoot s"
  "options (snd (verifySetup sys cfg s)) = options s"
  "platform (snd (verifySetup sys cfg s)) = platform s"
  "cwd (snd (verifySetup sys cfg s)) = cwd s"
  by (simp_all add: verifySetup_def Let_def case_prod_beta)

lemma verifySetup_prefix [simp]:
  "prefix xs (trace s) \<Longrightarrow> prefix xs (trace (snd (verifySetup sys cfg s)))"
  by (simp add: verifySetup_def Let_def case_prod_beta)

subsection \<open>The remediation\<close>

lemma download_simps [simp]:
  "sdkRoot (download sys s) = sdkRoot s"
  "options (download sys s) = options s"
  "platform (download sys s) = platform s"
  "cwd (download sys s) = cwd s"
  "binaryLocation (download sys s) = binaryLocation s"
  "trace (download sys s) = trace s @ [EvDownload (sdkRoot s) (platform s)]"
  by (simp_all add: download_def)

lemma setupAndroid_bootstrap_frame [simp]:
  "sdkRoot (snd (setupAndroid_bootstrap sys m s)) = sdkRoot s"
  "options (snd (setupAndroid_bootstrap sys m s)) = options s"
  "platform (snd (setupAndroid_bootstrap sys m s)) = platform s"
  "cwd (snd (setupAndroid_bootstrap sys m s)) = cwd s"
  by (simp_all add: setupAndroid_bootstrap_def Let_def case_prod_beta)

lemma setupAndroid_bootstrap_fst:
  "fst (setupAndroid_bootstrap sys m s) =
     (if fst (checkBinariesWorking sys [Sdkmanager] s) \<noteq> [] \<or> ''avdmanager'' \<in> set m
      then remove1 ''avdmanager'' m else m)"
  by (simp add: setupAndroid_bootstrap_def Let_def case_prod_beta)

lemma setupAndroid_bootstrap_filter [simp]:
  assumes "\<And>p r. \<not> Q (EvExists p r)" and "\<And>n r. \<not> Q (EvWhich n r)"
    and "\<And>n c d out. \<not> Q (EvExec n ''--version'' c d out)"
  shows "filter Q (trace (snd (setupAndroid_bootstrap sys m s)))
           = filter Q (trace s) @
             (if fst (checkBinariesWorking sys [Sdkmanager] s) \<noteq> [] \<or> ''avdmanager'' \<in> set m
              then filter Q [EvDownload (sdkRoot s) (platform s)] else [])"
proof -
  have "filter Q (trace (snd (checkBinariesWorking sys [Sdkmanager] s))) = filter Q (trace s)"
    by (rule checkBinariesWorking_filter) (use assms in auto)
  then show ?thesis
    by (simp add: setupAndroid_bootstrap_def Let_def case_prod_beta)
qed

lemma setupAndroid_bootstrap_prefix [simp]:
  "prefix xs (trace s) \<Longrightarrow> prefix xs (trace (snd (setupAndroid_bootstrap sys m s)))"
  by (simp add: setupAndroid_bootstrap_def Let_def case_prod_beta)

lemma setupAndroid_install_frame [simp]:
  "sdkRoot (snd (setupAndroid_install sys m s)) = sdkRoot s"
  "options (snd (setupAndroid_install sys m s)) = options s"
  "platform (snd (setupAndroid_install sys m s)) = platform s"
  "cwd (snd (setupAndroid_install sys m s)) = cwd s"
  by (simp_all add: setupAndroid_install_def case_prod_beta)

lemma setupAndroid_install_filter [simp]:
  assumes "\<And>p r. \<not> Q (EvExists p r)" and "\<And>n r. \<not> Q (EvWhich n r)"
  shows "filter Q (trace (snd (setupAndroid_install sys m s)))
           = filter Q (trace s) @ filter Q [installEvent sys m s]"
  using assms by (simp add: setupAndroid_install_def installEvent_def case_prod_beta)

lemma setupAndroid_install_prefix [simp]:
  "prefix xs (trace s) \<Longrightarrow> prefix xs (trace (snd (setupAndroid_install sys m s)))"
  by (simp add: setupAndroid_install_def case_prod_beta)

lemma setupAndroid_platforms_frame [simp]:
  "sdkRoot (setupAndroid_platforms sys m s) = sdkRoot s"
  "options (setupAndroid_platforms sys m s) = options s"
  "platform (setupAndroid_platforms sys m s) = platform s"
  "cwd (setupAndroid_platforms sys m s) = cwd s"
  by (simp_all add: setupAndroid_platforms_def)

lemma setupAndroid_platforms_trace:
  "trace (setupAndroid_platforms sys m s)
     = trace s @ (if ''platforms'' \<in> set m
                  then [EvMkdir (path_join sys [sdkRoot s, ''platforms''])
                          (fst (fs_mkdirSync sys (world s) (path_join sys [sdkRoot s, ''platforms''])))]
                  else [])"
  by (simp add: setupAndroid_platforms_def)

lemma setupAndroid_platforms_prefix [simp]:
  "prefix xs (trace s) \<Longrightarrow> prefix xs (trace (setupAndroid_platforms sys m s))"
  by (simp add: setupAndroid_platforms_def)

lemma setupAndroid_avd_frame [simp]:
  "sdkRoot (snd (setupAndroid_avd sys r s)) = sdkRoot s"
  "options (snd (setupAndroid_avd sys r s)) = options s"
  "platform (snd (setupAndroid_avd sys r s)) = platform s"
  "cwd (snd (setupAndroid_avd sys r s)) = cwd s"
  by (simp_all add: setupAndroid_avd_def case_prod_beta)

lemma setupAndroid_avd_filter [simp]:
  assumes "\<And>p r. \<not> Q (EvExists p r)" and "\<And>n r. \<not> Q (EvWhich n r)"
  shows "filter Q (trace (snd (setupAndroid_avd sys r s)))
           = filter Q (trace s) @ filter Q [avdListEvent sys s]
             @ (if fst (verifyAvdPresent sys s) then [] else filter Q [createEvent sys s])"
  using assms by (simp add: setupAndroid_avd_def createEvent_def Let_def case_prod_beta)

lemma setupAndroid_avd_fst:
  "fst (setupAndroid_avd sys r s) =
     (r \<and> (fst (verifyAvdPresent sys s) \<or> \<not> stepFailed sys (createEvent sys s)))"
  by (auto simp add: setupAndroid_avd_def createEvent_def Let_def case_prod_beta split: option.splits)

lemma setupAndroid_avd_prefix [simp]:
  "prefix xs (trace s) \<Longrightarrow> prefix xs (trace (snd (setupAndroid_avd sys r s)))"
  by (simp add: setupAndroid_avd_def case_prod_beta)

lemma createAvdArgs_other [simp]:
  "createAvdArgs sys \<noteq> smokeTestArgs b" "smokeTestArgs b \<noteq> createAvdArgs sys"
  "createAvdArgs sys \<noteq> ''list avd''" "createAvdArgs sys \<noteq> ''devices''"
  "''list avd'' \<noteq> createAvdArgs sys" "''devices'' \<noteq> createAvdArgs sys"
  "createAvdArgs sys \<noteq> ''--version''" "''--version'' \<noteq> createAvdArgs sys"
  by (cases b; simp add: createAvdArgs_def)+

lemma createEvent_kind [simp]:
  "isExecOf a (createEvent sys s) = (a = createAvdArgs sys)"
  "\<not> isMkdir (createEvent sys s)" "\<not> isInstall (createEvent sys s)"
  "\<not> isDownload (createEvent sys s)" "\<not> listingShows n (createEvent sys s)"
  by (auto simp add: createEvent_def Let_def)

lemma installEvent_kind [simp]:
  "\<not> isExecOf a (installEvent sys m s)"
  "\<not> isMkdir (installEvent sys m s)" "isInstall (installEvent sys m s)"
  "\<not> isDownload (installEvent sys m s)" "\<not> listingShows n (installEvent sys m s)"
  "stepFailed sys (installEvent sys m s) = (\<not> fst (setupAndroid_install sys m s))"
  by (auto simp add: installEvent_def)

lemma setupAndroid_frame [simp]:
  "sdkRoot (snd (setupAndroid sys cfg m s)) = sdkRoot s"
  "options (snd (setupAndroid sys cfg m s)) = options s"
  "platform (snd (setupAndroid sys cfg m s)) = platform s"
  "cwd (snd (setupAndroid sys cfg m s)) = cwd s"
  by (simp_all add: setupAndroid_def case_prod_beta)

lemma setupAndroid_prefix [simp]:
  "prefix xs (trace s) \<Longrightarrow> prefix xs (trace (snd (setupAndroid sys cfg m s)))"
  by (simp add: setupAndroid_def case_prod_beta)

lemma filter_newEvents:
  assumes "prefix (trace s) (trace s')"
  shows "filter Q (newEvents s s') = drop (length (filter Q (trace s))) (filter Q (trace s'))"
proof -
  from assms obtain es where es: "trace s' = trace s @ es" by (auto simp: prefix_def)
  then show ?thesis by (simp add: newEvents_def)
qed

lemma run_prefix [simp]:
  "prefix xs (trace s) \<Longrightarrow> prefix xs (trace (snd (run sys s)))"
  by (simp add: run_def Let_def case_prod_beta getSetupConfigs_def)

subsection \<open>The calls made by the remediation\<close>


lemma setupAndroid_filter:
  assumes "\<And>p r. \<not> Q (EvExists p r)" and "\<And>n r. \<not> Q (EvWhich n r)"
    and "\<And>n c d out. \<not> Q (EvExec n ''--version'' c d out)"
    and "\<And>n c d out. \<not> Q (EvExec n ''devices'' c d out)"
    and "m \<noteq> []"
  shows "filter Q (newEvents s (snd (setupAndroid sys cfg m s))) =
     (let m' = fst (setupAndroid_bootstrap sys m s);
          s1 = snd (setupAndroid_bootstrap sys m s);
          s2 = snd (setupAndroid_install sys m' s1);
          s3 = setupAndroid_platforms sys m' s2
      in (if m' \<noteq> m \<or> fst (checkBinariesWorking sys [Sdkmanager] s) \<noteq> [] \<or> ''avdmanager'' \<in> set m
          then filter Q [EvDownload (sdkRoot s) (platform s)] else [])
         @ filter Q [installEvent sys m' s1]
         @ (if ''platforms'' \<in> set m'
            then filter Q [EvMkdir (path_join sys [sdkRoot s, ''platforms''])
                            (fst (fs_mkdirSync sys (world s2) (path_join sys [sdkRoot s, ''platforms''])))]
            else [])
         @ filter Q [avdListEvent sys s3]
         @ (if fst (verifyAvdPresent sys s3) then [] else filter Q [createEvent sys s3]))"
  using assms
  by (simp add: filter_newEvents setupAndroid_def case_prod_beta Let_def
        setupAndroid_platforms_trace setupAndroid_bootstrap_fst)

lemma setupAndroid_fst:
  "m \<noteq> [] \<Longrightarrow> fst (setupAndroid sys cfg m s) =
     (let m' = fst (setupAndroid_bootstrap sys m s);
          s1 = snd (setupAndroid_bootstrap sys m s);
          s2 = snd (setupAndroid_install sys m' s1);
          s3 = setupAndroid_platforms sys m' s2
      in fst (setupAndroid_install sys m' s1)
         \<and> (fst (verifyAvdPresent sys s3) \<or> \<not> stepFailed sys (createEvent sys s3)))"
  by (simp add: setupAndroid_def case_prod_beta Let_def setupAndroid_avd_fst)


lemma packagesToInstall_platforms_avd:
  assumes "map_of (BINARY_TO_PACKAGE_NAME sys) (NIGHTWATCH_AVD sys) = Some pkg"
    and "''platforms'' \<notin> fst ` set (BINARY_TO_PACKAGE_NAME sys)"
  shows "packagesToInstall sys [''platforms'', NIGHTWATCH_AVD sys] = [pkg]"
  using assms by (auto simp: packagesToInstall_def dest: map_of_SomeD intro: rev_image_eqI)

lemma remove1_distinct_filter: "distinct xs \<Longrightarrow> remove1 x xs = filter (\<lambda>y. y \<noteq> x) xs"
  by (simp add: distinct_remove1_removeAll removeAll_filter_not_eq) (metis)


subsection \<open>What the checks report\<close>

lemma getBinaryLocation_fst_cong:
  "world s = world t \<Longrightarrow> sdkRoot s = sdkRoot t \<Longrightarrow> platform s = platform t \<Longrightarrow>
   fst (getBinaryLocation sys b s) = fst (getBinaryLocation sys b t)"
  by (simp add: getBinaryLocation_def Let_def case_prod_beta)

lemma checkBinariesPresent_loop_fst:
  "fst (checkBinariesPresent_loop sys bs acc s)
     = acc @ filter (\<lambda>b. fst (getBinaryLocation sys b s) = []) bs"
proof (induction bs arbitrary: acc s)
  case Nil
  show ?case by simp
next
  case (Cons b bs)
  have same: "fst (getBinaryLocation sys b' (snd (getBinaryLocation sys b s)))
                = fst (getBinaryLocation sys b' s)" for b'
    by (rule getBinaryLocation_fst_cong) simp_all
  show ?case by (simp add: case_prod_beta Cons.IH same)
qed

lemma checkBinariesPresent_fst:
  "fst (checkBinariesPresent sys bs s) = filter (\<lambda>b. fst (getBinaryLocation sys b s) = []) bs"
  by (simp add: checkBinariesPresent_def checkBinariesPresent_loop_fst)

lemma checkBinariesWorking_loop_set:
  "set (fst (checkBinariesWorking_loop sys bs acc s)) \<subseteq> set acc \<union> set bs"
proof (induction bs arbitrary: acc s)
  case Nil
  show ?case by simp
next
  case (Cons b bs)
  show ?case
    using Cons.IH[of "acc @ [b]"] Cons.IH[of acc]
    by (auto simp add: case_prod_beta split: if_splits; blast)
qed

lemma checkBinariesWorking_loop_distinct:
  "distinct (acc @ bs) \<Longrightarrow> distinct (fst (checkBinariesWorking_loop sys bs acc s))"
proof (induction bs arbitrary: acc s)
  case Nil
  then show ?case by simp
next
  case (Cons b bs)
  from Cons.prems have d1: "distinct ((acc @ [b]) @ bs)" and d2: "distinct (acc @ bs)" by auto
  show ?case
    using Cons.IH[OF d1] Cons.IH[OF d2]
    by (simp add: case_prod_beta)
qed

lemma checkBinariesWorking_set: "set (fst (checkBinariesWorking sys bs s)) \<subseteq> set bs"
  using checkBinariesWorking_loop_set[of sys bs "[]" s] by (simp add: checkBinariesWorking_def)

lemma checkBinariesWorking_distinct:
  "distinct bs \<Longrightarrow> distinct (fst (checkBinariesWorking sys bs s))"
  using checkBinariesWorking_loop_distinct[of "[]" bs sys s] by (simp add: checkBinariesWorking_def)

lemma checkBinariesWorking_execBy:
  assumes "name \<notin> binName ` set bs"
  shows "filter (isExecBy name) (trace (snd (checkBinariesWorking sys bs s)))
           = filter (isExecBy name) (trace s)"
  by (rule checkBinariesWorking_filter) (use assms in auto)

lemma inj_binName: "inj binName"
proof (rule injI)
  fix a b assume "binName a = binName b"
  then show "a = b" by (cases a; cases b; simp)
qed

lemma binName_not_platforms [simp]: "binName b \<noteq> ''platforms''" "''platforms'' \<noteq> binName b"
  by (cases b; simp)+

lemma distinct_requiredBinariesFor [simp]: "distinct (requiredBinariesFor cfg)"
  by (simp add: requiredBinariesFor_def)

lemma verifyPresence_fst:
  "fst (verifyPresence sys cfg s) =
     (fst (checkBinariesPresent sys (requiredBinariesFor cfg) s),
      map binName (fst (checkBinariesPresent sys (requiredBinariesFor cfg) s))
        @ (if Emulator \<in> set (requiredBinariesFor cfg)
              \<and> \<not> fs_existsSync sys (world s) (path_join sys [sdkRoot s, ''platforms''])
           then [''platforms''] else []))"
  by (simp add: verifyPresence_def Let_def case_prod_beta)

lemma verifySetup_fst:
  assumes "verifyPresence sys cfg s = ((missingBinaries, missing1), s2)"
    and "verifyAvdPresent sys s2 = (avdPresent, s3)"
    and "checkBinariesWorking sys (binariesPresent (requiredBinariesFor cfg) missingBinaries) s3
           = (nonWorking, s4)"
  shows "fst (verifySetup sys cfg s)
           = missing1 @ (if avdPresent then [] else [NIGHTWATCH_AVD sys]) @ map binName nonWorking"
  using assms by (auto simp add: verifySetup_def Let_def)

lemma count_list_distinct: "distinct xs \<Longrightarrow> count_list xs x = (if x \<in> set xs then 1 else 0)"
  by (induction xs) auto

lemma count_list_map_binName: "count_list (map binName xs) (binName b) = count_list xs b"
  by (rule count_list_map_conv[OF inj_binName])

subsection \<open>The run\<close>


lemma getSetupConfigs_frame [simp]:
  "sdkRoot (snd (getSetupConfigs sys opts s)) = sdkRoot s"
  "options (snd (getSetupConfigs sys opts s)) = options s"
  "platform (snd (getSetupConfigs sys opts s)) = platform s"
  "cwd (snd (getSetupConfigs sys opts s)) = cwd s"
  "binaryLocation (snd (getSetupConfigs sys opts s)) = binaryLocation s"
  "trace (snd (getSetupConfigs sys opts s))
     = trace s @ [EvPrompt (getConfigFromOptions opts)
                    (fst (inquirer_prompt sys (world s) (getConfigFromOptions opts)))]"
  by (simp_all add: getSetupConfigs_def)

lemma getBinaryLocation_first_probe:
  "prefix (trace s @ [EvExists (path_join sys [sdkRoot s, SDK_BINARY_LOCATIONS sys b,
                                  getBinaryNameForOS sys (platform s) (binName b)])
                        (fs_existsSync sys (world s)
                           (path_join sys [sdkRoot s, SDK_BINARY_LOCATIONS sys b,
                              getBinaryNameForOS sys (platform s) (binName b)]))])
     (trace (snd (getBinaryLocation sys b s)))"
  by (simp add: getBinaryLocation_def Let_def case_prod_beta)

lemma verifySetup_first_probe:
  "prefix (trace s @ [EvExists (path_join sys [sdkRoot s, SDK_BINARY_LOCATIONS sys Adb,
                                  getBinaryNameForOS sys (platform s) ''adb''])
                        (fs_existsSync sys (world s)
                           (path_join sys [sdkRoot s, SDK_BINARY_LOCATIONS sys Adb,
                              getBinaryNameForOS sys (platform s) ''adb'']))])
     (trace (snd (verifySetup sys cfg s)))"
proof -
  let ?xs = "trace s @ [EvExists (path_join sys [sdkRoot s, SDK_BINARY_LOCATIONS sys Adb,
                                  getBinaryNameForOS sys (platform s) ''adb''])
                        (fs_existsSync sys (world s)
                           (path_join sys [sdkRoot s, SDK_BINARY_LOCATIONS sys Adb,
                              getBinaryNameForOS sys (platform s) ''adb'']))]"
  have first: "prefix ?xs (trace (snd (getBinaryLocation sys Adb s)))"
    using getBinaryLocation_first_probe[of s sys Adb] by simp
  have "\<exists>rest. requiredBinariesFor cfg = Adb # rest"
    by (simp add: requiredBinariesFor_def)
  then obtain rest where req: "requiredBinariesFor cfg = Adb # rest" ..
  have "prefix ?xs (trace (snd (checkBinariesPresent sys (requiredBinariesFor cfg) s)))"
    unfolding req checkBinariesPresent_def
    by (simp add: case_prod_beta first del: prefix_snoc)
  then have "prefix ?xs (trace (snd (verifyPresence sys cfg s)))"
    by (simp add: verifyPresence_def Let_def case_prod_beta del: prefix_snoc)
  then show ?thesis
    by (simp add: verifySetup_def Let_def case_prod_beta del: prefix_snoc)
qed

lemma avdListed_empty: "name \<noteq> [] \<Longrightarrow> \<not> avdListed name []"
  by (simp add: avdListed_def str_split_def str_split_from.simps)



subsection \<open>The result of the checks depends on the host only\<close>

lemma agreeOn_mono: "agreeOn A s t \<Longrightarrow> B \<subseteq> A \<Longrightarrow> agreeOn B s t"
  by (auto simp: agreeOn_def)

lemma getBinaryLocation_agree_fst:
  "agreeOn A s t \<Longrightarrow> fst (getBinaryLocation sys b s) = fst (getBinaryLocation sys b t)"
  by (rule getBinaryLocation_fst_cong) (simp_all add: agreeOn_def)

lemma getBinaryLocation_entry:
  "world s = world t \<Longrightarrow> sdkRoot s = sdkRoot t \<Longrightarrow> platform s = platform t \<Longrightarrow>
   binaryLocation s b' = binaryLocation t b' \<Longrightarrow>
   binaryLocation (snd (getBinaryLocation sys b s)) b' = binaryLocation (snd (getBinaryLocation sys b t)) b'"
  by (auto simp add: getBinaryLocation_def Let_def case_prod_beta)

lemma getBinaryLocation_agree:
  assumes "agreeOn A s t"
  shows "agreeOn A (snd (getBinaryLocation sys b s)) (snd (getBinaryLocation sys b t))"
  using assms by (auto simp: agreeOn_def intro: getBinaryLocation_entry)

lemma getBinaryLocation_agree_found:
  assumes "agreeOn A s t" and "fst (getBinaryLocation sys b s) \<noteq> []"
  shows "agreeOn (insert b A) (snd (getBinaryLocation sys b s)) (snd (getBinaryLocation sys b t))"
proof -
  have eq: "fst (getBinaryLocation sys b t) = fst (getBinaryLocation sys b s)"
    using getBinaryLocation_agree_fst[OF assms(1)] by simp
  have "binaryLocation (snd (getBinaryLocation sys b s)) b
          = binaryLocation (snd (getBinaryLocation sys b t)) b"
    using getBinaryLocation_cache_found[OF assms(2)] getBinaryLocation_cache_found[of sys b t] assms(2) eq
    by simp
  with getBinaryLocation_agree[OF assms(1), of sys b] show ?thesis
    by (auto simp: agreeOn_def)
qed

lemma checkBinariesPresent_loop_agree:
  assumes "agreeOn A s t"
  shows "agreeOn (A \<union> {b \<in> set bs. fst (getBinaryLocation sys b s) \<noteq> []})
           (snd (checkBinariesPresent_loop sys bs acc s))
           (snd (checkBinariesPresent_loop sys bs acc t))"
  using assms
proof (induction bs arbitrary: A acc s t)
  case Nil
  then show ?case by simp
next
  case (Cons b bs)
  let ?s1 = "snd (getBinaryLocation sys b s)" and ?t1 = "snd (getBinaryLocation sys b t)"
  have eq: "fst (getBinaryLocation sys b t) = fst (getBinaryLocation sys b s)"
    using getBinaryLocation_agree_fst[OF Cons.prems] by simp
  have same: "fst (getBinaryLocation sys b' ?s1) = fst (getBinaryLocation sys b' s)" for b'
    by (rule getBinaryLocation_fst_cong) simp_all
  show ?case
  proof (cases "fst (getBinaryLocation sys b s) = []")
    case True
    have "agreeOn A ?s1 ?t1" by (rule getBinaryLocation_agree[OF Cons.prems])
    from Cons.IH[OF this, of "acc @ [b]"]
    have "agreeOn (A \<union> {b' \<in> set bs. fst (getBinaryLocation sys b' s) \<noteq> []})
            (snd (checkBinariesPresent_loop sys bs (acc @ [b]) ?s1))
            (snd (checkBinariesPresent_loop sys bs (acc @ [b]) ?t1))"
      by (simp add: same)
    moreover have "A \<union> {b' \<in> set (b # bs). fst (getBinaryLocation sys b' s) \<noteq> []}
        \<subseteq> A \<union> {b' \<in> set bs. fst (getBinaryLocation sys b' s) \<noteq> []}"
      using True by auto
    ultimately have "agreeOn (A \<union> {b' \<in> set (b # bs). fst (getBinaryLocation sys b' s) \<noteq> []})
            (snd (checkBinariesPresent_loop sys bs (acc @ [b]) ?s1))
            (snd (checkBinariesPresent_loop sys bs (acc @ [b]) ?t1))"
      by (rule agreeOn_mono)
    with True eq show ?thesis by (simp add: case_prod_beta)
  next
    case False
    have "agreeOn (insert b A) ?s1 ?t1" by (rule getBinaryLocation_agree_found[OF Cons.prems False])
    from Cons.IH[OF this, of acc]
    have "agreeOn (insert b A \<union> {b' \<in> set bs. fst (getBinaryLocation sys b' s) \<noteq> []})
            (snd (checkBinariesPresent_loop sys bs acc ?s1))
            (snd (checkBinariesPresent_loop sys bs acc ?t1))"
      by (simp add: same)
    moreover have "A \<union> {b' \<in> set (b # bs). fst (getBinaryLocation sys b' s) \<noteq> []}
        \<subseteq> insert b A \<union> {b' \<in> set bs. fst (getBinaryLocation sys b' s) \<noteq> []}"
      by auto
    ultimately have "agreeOn (A \<union> {b' \<in> set (b # bs). fst (getBinaryLocation sys b' s) \<noteq> []})
            (snd (checkBinariesPresent_loop sys bs acc ?s1))
            (snd (checkBinariesPresent_loop sys bs acc ?t1))"
      by (rule agreeOn_mono)
    with False eq show ?thesis by (simp add: case_prod_beta)
  qed
qed

lemma verifyPresence_agree:
  assumes "agreeOn A s t"
  shows "fst (verifyPresence sys cfg s) = fst (verifyPresence sys cfg t)"
    and "agreeOn (A \<union> set (binariesPresent (requiredBinariesFor cfg) (fst (fst (verifyPresence sys cfg s)))))
           (snd (verifyPresence sys cfg s)) (snd (verifyPresence sys cfg t))"
proof -
  have loc: "fst (getBinaryLocation sys b s) = fst (getBinaryLocation sys b t)" for b
    by (rule getBinaryLocation_agree_fst[OF assms])
  from assms have host: "world s = world t" "sdkRoot s = sdkRoot t" by (simp_all add: agreeOn_def)
  show "fst (verifyPresence sys cfg s) = fst (verifyPresence sys cfg t)"
    by (simp add: verifyPresence_fst checkBinariesPresent_fst loc host)
  have "agreeOn (A \<union> {b \<in> set (requiredBinariesFor cfg). fst (getBinaryLocation sys b s) \<noteq> []})
           (snd (checkBinariesPresent sys (requiredBinariesFor cfg) s))
           (snd (checkBinariesPresent sys (requiredBinariesFor cfg) t))"
    unfolding checkBinariesPresent_def by (rule checkBinariesPresent_loop_agree[OF assms])
  moreover have "set (binariesPresent (requiredBinariesFor cfg) (fst (fst (verifyPresence sys cfg s))))
      = {b \<in> set (requiredBinariesFor cfg). fst (getBinaryLocation sys b s) \<noteq> []}"
    by (auto simp add: verifyPresence_fst checkBinariesPresent_fst binariesPresent_def)
  ultimately show "agreeOn (A \<union> set (binariesPresent (requiredBinariesFor cfg) (fst (fst (verifyPresence sys cfg s)))))
           (snd (verifyPresence sys cfg s)) (snd (verifyPresence sys cfg t))"
    by (simp add: verifyPresence_def Let_def case_prod_beta agreeOn_def)
qed

lemma execBinary_agree:
  assumes "agreeOn A s t"
  shows "fst (execBinary sys loc n a s) = fst (execBinary sys loc n a t)"
    and "agreeOn A (snd (execBinary sys loc n a s)) (snd (execBinary sys loc n a t))"
  using assms by (simp_all add: execBinary_def Let_def case_prod_beta agreeOn_def)

lemma verifyAvdPresent_agree:
  assumes "agreeOn A s t"
  shows "fst (verifyAvdPresent sys s) = fst (verifyAvdPresent sys t)"
    and "agreeOn A (snd (verifyAvdPresent sys s)) (snd (verifyAvdPresent sys t))"
proof -
  have loc: "fst (getBinaryLocation sys Avdmanager s) = fst (getBinaryLocation sys Avdmanager t)"
    by (rule getBinaryLocation_agree_fst[OF assms])
  have a1: "agreeOn A (snd (getBinaryLocation sys Avdmanager s)) (snd (getBinaryLocation sys Avdmanager t))"
    by (rule getBinaryLocation_agree[OF assms])
  show "fst (verifyAvdPresent sys s) = fst (verifyAvdPresent sys t)"
    using execBinary_agree(1)[OF a1, of sys] loc
    by (simp add: verifyAvdPresent_def case_prod_beta del: execBinary_fst)
  show "agreeOn A (snd (verifyAvdPresent sys s)) (snd (verifyAvdPresent sys t))"
    using execBinary_agree(2)[OF a1, of sys] loc
    by (simp add: verifyAvdPresent_def case_prod_beta)
qed

lemma cachedOrLocate_agree:
  assumes "agreeOn A s t" and "b \<in> A"
  shows "fst (cachedOrLocate sys b s) = fst (cachedOrLocate sys b t)"
    and "agreeOn A (snd (cachedOrLocate sys b s)) (snd (cachedOrLocate sys b t))"
proof -
  from assms have entry: "binaryLocation s b = binaryLocation t b" by (simp add: agreeOn_def)
  show "fst (cachedOrLocate sys b s) = fst (cachedOrLocate sys b t)"
    using getBinaryLocation_agree_fst[OF assms(1), of sys b] entry
    by (simp add: cachedOrLocate_def split: option.splits)
  show "agreeOn A (snd (cachedOrLocate sys b s)) (snd (cachedOrLocate sys b t))"
    using getBinaryLocation_agree[OF assms(1), of sys b] assms(1) entry
    by (simp add: cachedOrLocate_def split: option.splits)
qed

lemma checkBinariesWorking_loop_agree:
  assumes "agreeOn A s t" and "set bs \<subseteq> A"
  shows "fst (checkBinariesWorking_loop sys bs acc s) = fst (checkBinariesWorking_loop sys bs acc t)
       \<and> agreeOn A (snd (checkBinariesWorking_loop sys bs acc s)) (snd (checkBinariesWorking_loop sys bs acc t))"
  using assms
proof (induction bs arbitrary: acc s t)
  case Nil
  then show ?case by simp
next
  case (Cons b bs)
  from Cons.prems have bA: "b \<in> A" and rest: "set bs \<subseteq> A" by auto
  let ?s1 = "snd (cachedOrLocate sys b s)" and ?t1 = "snd (cachedOrLocate sys b t)"
  let ?loc = "fst (cachedOrLocate sys b s)"
  have loc: "fst (cachedOrLocate sys b t) = ?loc"
    using cachedOrLocate_agree(1)[OF Cons.prems(1) bA, of sys] by simp
  have a1: "agreeOn A ?s1 ?t1" by (rule cachedOrLocate_agree(2)[OF Cons.prems(1) bA])
  let ?s2 = "snd (execBinary sys ?loc (binName b) (smokeTestArgs b) ?s1)"
  let ?t2 = "snd (execBinary sys ?loc (binName b) (smokeTestArgs b) ?t1)"
  have out: "fst (execBinary sys ?loc (binName b) (smokeTestArgs b) ?t1)
               = fst (execBinary sys ?loc (binName b) (smokeTestArgs b) ?s1)"
    using execBinary_agree(1)[OF a1, of sys ?loc] by simp
  have a2: "agreeOn A ?s2 ?t2" by (rule execBinary_agree(2)[OF a1])
  show ?case
    using Cons.IH[OF a1 rest] Cons.IH[OF a2 rest] loc out
    by (simp add: case_prod_beta del: execBinary_fst)
qed

lemma checkBinariesWorking_agree:
  assumes "agreeOn A s t" and "set bs \<subseteq> A"
  shows "fst (checkBinariesWorking sys bs s) = fst (checkBinariesWorking sys bs t)"
    and "agreeOn A (snd (checkBinariesWorking sys bs s)) (snd (checkBinariesWorking sys bs t))"
  using checkBinariesWorking_loop_agree[OF assms, of sys "[]"]
  by (simp_all add: checkBinariesWorking_def)

lemma verifyAdbRunning_agree:
  assumes "agreeOn A s t"
  shows "agreeOn A (verifyAdbRunning sys s) (verifyAdbRunning sys t)"
proof -
  have loc: "fst (getBinaryLocation sys Adb s) = fst (getBinaryLocation sys Adb t)"
    by (rule getBinaryLocation_agree_fst[OF assms])
  have a1: "agreeOn A (snd (getBinaryLocation sys Adb s)) (snd (getBinaryLocation sys Adb t))"
    by (rule getBinaryLocation_agree[OF assms])
  show ?thesis
    using execBinary_agree(2)[OF a1, of sys] a1 loc
    by (simp add: verifyAdbRunning_def case_prod_beta)
qed

lemma verifySetup_agree:
  assumes "agreeOn {} s t"
  shows "fst (verifySetup sys cfg s) = fst (verifySetup sys cfg t)"
    and "agreeOn {} (snd (verifySetup sys cfg s)) (snd (verifySetup sys cfg t))"
proof -
  let ?mb = "fst (fst (verifyPresence sys cfg s))"
  let ?present = "binariesPresent (requiredBinariesFor cfg) ?mb"
  let ?A = "set ?present"
  let ?s2 = "snd (verifyPresence sys cfg s)" and ?t2 = "snd (verifyPresence sys cfg t)"
  have vp: "fst (verifyPresence sys cfg t) = fst (verifyPresence sys cfg s)"
    using verifyPresence_agree(1)[OF assms, where sys=sys and cfg=cfg] by simp
  have a2: "agreeOn ?A ?s2 ?t2"
    using verifyPresence_agree(2)[OF assms, where sys=sys and cfg=cfg] by simp
  let ?s3 = "snd (verifyAvdPresent sys ?s2)" and ?t3 = "snd (verifyAvdPresent sys ?t2)"
  have va: "fst (verifyAvdPresent sys ?t2) = fst (verifyAvdPresent sys ?s2)"
    using verifyAvdPresent_agree(1)[OF a2, where sys=sys] by simp
  have a3: "agreeOn ?A ?s3 ?t3" by (rule verifyAvdPresent_agree(2)[OF a2])
  let ?s4 = "snd (checkBinariesWorking sys ?present ?s3)"
  let ?t4 = "snd (checkBinariesWorking sys ?present ?t3)"
  have cw: "fst (checkBinariesWorking sys ?present ?t3) = fst (checkBinariesWorking sys ?present ?s3)"
    using checkBinariesWorking_agree(1)[OF a3, where bs="?present" and sys=sys] by simp
  have a4: "agreeOn ?A ?s4 ?t4" by (rule checkBinariesWorking_agree(2)[OF a3]) simp
  have a5: "agreeOn ?A (verifyAdbRunning sys ?s4) (verifyAdbRunning sys ?t4)"
    by (rule verifyAdbRunning_agree[OF a4])
  have fs: "fst (verifySetup sys cfg s) =
      snd (fst (verifyPresence sys cfg s))
        @ (if fst (verifyAvdPresent sys ?s2) then [] else [NIGHTWATCH_AVD sys])
        @ map binName (fst (checkBinariesWorking sys ?present ?s3))"
    by (rule verifySetup_fst[where missingBinaries="?mb" and ?s2.0="?s2" and ?s3.0="?s3" and ?s4.0="?s4"])
       simp_all
  have ft: "fst (verifySetup sys cfg t) =
      snd (fst (verifyPresence sys cfg t))
        @ (if fst (verifyAvdPresent sys ?t2) then [] else [NIGHTWATCH_AVD sys])
        @ map binName (fst (checkBinariesWorking sys ?present ?t3))"
  proof -
    have "fst (verifySetup sys cfg t) =
      snd (fst (verifyPresence sys cfg t))
        @ (if fst (verifyAvdPresent sys ?t2) then [] else [NIGHTWATCH_AVD sys])
        @ map binName (fst (checkBinariesWorking sys
             (binariesPresent (requiredBinariesFor cfg) (fst (fst (verifyPresence sys cfg t)))) ?t3))"
      by (rule verifySetup_fst[where missingBinaries="fst (fst (verifyPresence sys cfg t))"
            and ?s2.0="?t2" and ?s3.0="?t3"
            and ?s4.0="snd (checkBinariesWorking sys
             (binariesPresent (requiredBinariesFor cfg) (fst (fst (verifyPresence sys cfg t)))) ?t3)"])
         simp_all
    then show ?thesis by (simp add: vp)
  qed
  show res: "fst (verifySetup sys cfg s) = fst (verifySetup sys cfg t)"
    unfolding fs ft by (simp add: vp va cw)
  have ss: "snd (verifySetup sys cfg s)
      = (if fst (verifySetup sys cfg s) = [] then verifyAdbRunning sys ?s4 else ?s4)"
    unfolding fs by (simp add: verifySetup_def Let_def case_prod_beta)
  have st: "snd (verifySetup sys cfg t)
      = (if fst (verifySetup sys cfg t) = [] then verifyAdbRunning sys ?t4 else ?t4)"
    unfolding ft by (simp add: verifySetup_def Let_def case_prod_beta vp)
  show "agreeOn {} (snd (verifySetup sys cfg s)) (snd (verifySetup sys cfg t))"
    unfolding ss st res using a4 a5 by (auto intro: agreeOn_mono)
qed



subsection \<open>The invariant of the cache\<close>

lemma entryJustified_mono:
  assumes "entryJustified sys roots plat tr b loc" and "roots \<subseteq> roots'" and "set tr \<subseteq> set tr'"
  shows "entryJustified sys roots' plat tr' b loc"
  using assms by (auto simp add: entryJustified_def)

lemma cacheJustified_mono:
  assumes "cacheJustified sys roots s" and "binaryLocation s' = binaryLocation s"
    and "platform s' = platform s" and "prefix (trace s) (trace s')" and "roots \<subseteq> roots'"
  shows "cacheJustified sys roots' s'"
proof -
  from assms(4) have sub: "set (trace s) \<subseteq> set (trace s')" by (auto simp: prefix_def)
  show ?thesis
    unfolding cacheJustified_def
  proof
    fix b
    from assms(1) have "case binaryLocation s b of None \<Rightarrow> True
        | Some loc \<Rightarrow> entryJustified sys roots (platform s) (trace s) b loc"
      by (simp add: cacheJustified_def)
    then show "case binaryLocation s' b of None \<Rightarrow> True
        | Some loc \<Rightarrow> entryJustified sys roots' (platform s') (trace s') b loc"
      by (auto simp add: assms(2,3) split: option.splits
               intro: entryJustified_mono[OF _ assms(5) sub])
  qed
qed

lemma cacheJustified_roots:
  "cacheJustified sys roots s \<Longrightarrow> roots \<subseteq> roots' \<Longrightarrow> cacheJustified sys roots' s"
  by (rule cacheJustified_mono[of sys roots s]) simp_all

lemma cacheJustified_store:
  assumes "cacheJustified sys roots s"
    and "entryJustified sys roots (platform s) (trace s) b loc"
  shows "cacheJustified sys roots (s\<lparr>binaryLocation := (binaryLocation s)(b \<mapsto> loc)\<rparr>)"
  using assms by (auto simp add: cacheJustified_def split: option.splits)

lemma cacheJustified_update [simp]:
  "cacheJustified sys roots (s\<lparr>world := w\<rparr>) = cacheJustified sys roots s"
  "cacheJustified sys roots (s\<lparr>sdkRoot := r\<rparr>) = cacheJustified sys roots s"
  by (simp_all add: cacheJustified_def cong: option.case_cong)

lemma cacheJustified_trace [simp]:
  "cacheJustified sys roots s \<Longrightarrow> prefix (trace s) tr \<Longrightarrow> cacheJustified sys roots (s\<lparr>trace := tr\<rparr>)"
  by (rule cacheJustified_mono[of sys roots s]) simp_all

lemma cacheJustified_getBinaryLocation:
  assumes "\<forall>segs. path_join sys segs \<noteq> []" and "sdkRoot s \<in> roots"
    and "cacheJustified sys roots s"
  shows "cacheJustified sys roots (snd (getBinaryLocation sys b s))"
proof -
  let ?full = "getBinaryNameForOS sys (platform s) (binName b)"
  let ?p = "path_join sys [sdkRoot s, SDK_BINARY_LOCATIONS sys b, ?full]"
  let ?q = "path_join sys [sdkRoot s, ?full]"
  have ne: "?p \<noteq> []" "?q \<noteq> []" using assms(1) by simp_all
  have ext: "cacheJustified sys roots (s\<lparr>trace := trace s @ es\<rparr>)" for es
    by (rule cacheJustified_trace[OF assms(3)]) simp
  have cand_p: "\<exists>root\<in>roots. ?p \<in> set (candidateLocations sys root (platform s) b)"
    using assms(2) by (auto simp add: candidateLocations_def)
  have cand_q: "b = Adb \<Longrightarrow> \<exists>root\<in>roots. ?q \<in> set (candidateLocations sys root (platform s) b)"
    using assms(2) by (auto simp add: candidateLocations_def)
  have store: "entryJustified sys roots (platform s) (trace s @ es) b loc \<Longrightarrow>
      cacheJustified sys roots (s\<lparr>trace := trace s @ es, binaryLocation := (binaryLocation s)(b \<mapsto> loc)\<rparr>)"
    for es loc
    using cacheJustified_store[OF ext[of es], of b loc] by simp
  show ?thesis
  proof (cases "fs_existsSync sys (world s) ?p")
    case True
    have "entryJustified sys roots (platform s) (trace s @ [EvExists ?p True]) b ?p"
      using ne cand_p by (simp add: entryJustified_def)
    from store[OF this] True show ?thesis
      by (simp add: getBinaryLocation_def Let_def case_prod_beta)
  next
    case noP: False
    show ?thesis
    proof (cases "b = Adb")
      case False
      with noP ext[of "[EvExists ?p False]"] show ?thesis
        by (simp add: getBinaryLocation_def Let_def case_prod_beta)
    next
      case adb: True
      show ?thesis
      proof (cases "fs_existsSync sys (world s) ?q")
        case True
        have "entryJustified sys roots (platform s) (trace s @ [EvExists ?p False, EvExists ?q True]) b ?q"
          using ne cand_q[OF adb] by (simp add: entryJustified_def)
        from store[OF this] True noP adb show ?thesis
          by (simp add: getBinaryLocation_def Let_def case_prod_beta)
      next
        case noQ: False
        show ?thesis
        proof (cases "which_sync sys (world s) ?full")
          case True
          have "entryJustified sys roots (platform s)
                  (trace s @ [EvExists ?p False, EvExists ?q False, EvWhich ?full True]) b ''PATH''"
            using adb by (simp add: entryJustified_def)
          from store[OF this] True noP noQ adb show ?thesis
            by (simp add: getBinaryLocation_def Let_def case_prod_beta)
        next
          case False
          with noP noQ adb ext[of "[EvExists ?p False, EvExists ?q False, EvWhich ?full False]"]
          show ?thesis
            by (simp add: getBinaryLocation_def Let_def case_prod_beta)
        qed
      qed
    qed
  qed
qed

lemma cacheJustified_execBinary [simp]:
  "cacheJustified sys roots s \<Longrightarrow> cacheJustified sys roots (snd (execBinary sys loc n a s))"
  by (rule cacheJustified_mono[of sys roots s]) simp_all

lemma cacheJustified_cachedOrLocate:
  "\<forall>segs. path_join sys segs \<noteq> [] \<Longrightarrow> sdkRoot s \<in> roots \<Longrightarrow> cacheJustified sys roots s \<Longrightarrow>
   cacheJustified sys roots (snd (cachedOrLocate sys b s))"
  by (simp add: cachedOrLocate_def cacheJustified_getBinaryLocation split: option.splits)

lemma cacheJustified_checkBinariesPresent_loop:
  "\<forall>segs. path_join sys segs \<noteq> [] \<Longrightarrow> sdkRoot s \<in> roots \<Longrightarrow> cacheJustified sys roots s \<Longrightarrow>
   cacheJustified sys roots (snd (checkBinariesPresent_loop sys bs acc s))"
  by (induction bs arbitrary: acc s) (simp_all add: case_prod_beta cacheJustified_getBinaryLocation)

lemma cacheJustified_checkBinariesWorking_loop:
  "\<forall>segs. path_join sys segs \<noteq> [] \<Longrightarrow> sdkRoot s \<in> roots \<Longrightarrow> cacheJustified sys roots s \<Longrightarrow>
   cacheJustified sys roots (snd (checkBinariesWorking_loop sys bs acc s))"
  by (induction bs arbitrary: acc s) (simp_all add: case_prod_beta cacheJustified_cachedOrLocate)

lemma cacheJustified_checkBinariesWorking:
  "\<forall>segs. path_join sys segs \<noteq> [] \<Longrightarrow> sdkRoot s \<in> roots \<Longrightarrow> cacheJustified sys roots s \<Longrightarrow>
   cacheJustified sys roots (snd (checkBinariesWorking sys bs s))"
  by (simp add: checkBinariesWorking_def cacheJustified_checkBinariesWorking_loop)

lemma cacheJustified_checkBinariesPresent:
  "\<forall>segs. path_join sys segs \<noteq> [] \<Longrightarrow> sdkRoot s \<in> roots \<Longrightarrow> cacheJustified sys roots s \<Longrightarrow>
   cacheJustified sys roots (snd (checkBinariesPresent sys bs s))"
  by (simp add: checkBinariesPresent_def cacheJustified_checkBinariesPresent_loop)

lemma cacheJustified_verifyAvdPresent:
  "\<forall>segs. path_join sys segs \<noteq> [] \<Longrightarrow> sdkRoot s \<in> roots \<Longrightarrow> cacheJustified sys roots s \<Longrightarrow>
   cacheJustified sys roots (snd (verifyAvdPresent sys s))"
  by (simp add: verifyAvdPresent_def case_prod_beta cacheJustified_getBinaryLocation)

lemma cacheJustified_verifyAdbRunning:
  "\<forall>segs. path_join sys segs \<noteq> [] \<Longrightarrow> sdkRoot s \<in> roots \<Longrightarrow> cacheJustified sys roots s \<Longrightarrow>
   cacheJustified sys roots (verifyAdbRunning sys s)"
  by (simp add: verifyAdbRunning_def case_prod_beta cacheJustified_getBinaryLocation)

lemma cacheJustified_verifyPresence:
  "\<forall>segs. path_join sys segs \<noteq> [] \<Longrightarrow> sdkRoot s \<in> roots \<Longrightarrow> cacheJustified sys roots s \<Longrightarrow>
   cacheJustified sys roots (snd (verifyPresence sys cfg s))"
  by (simp add: verifyPresence_def Let_def case_prod_beta cacheJustified_checkBinariesPresent)

lemma cacheJustified_verifySetup:
  "\<forall>segs. path_join sys segs \<noteq> [] \<Longrightarrow> sdkRoot s \<in> roots \<Longrightarrow> cacheJustified sys roots s \<Longrightarrow>
   cacheJustified sys roots (snd (verifySetup sys cfg s))"
  by (simp add: verifySetup_def Let_def case_prod_beta cacheJustified_verifyPresence
        cacheJustified_verifyAvdPresent cacheJustified_checkBinariesWorking
        cacheJustified_verifyAdbRunning)

lemma cacheJustified_setupAndroid:
  assumes "\<forall>segs. path_join sys segs \<noteq> []" and "sdkRoot s \<in> roots"
    and "cacheJustified sys roots s"
  shows "cacheJustified sys roots (snd (setupAndroid sys cfg m s))"
proof -
  have b: "cacheJustified sys roots (snd (setupAndroid_bootstrap sys m' s'))"
    if "cacheJustified sys roots s'" "sdkRoot s' \<in> roots" for m' s'
    using assms(1) that
    by (simp add: setupAndroid_bootstrap_def Let_def case_prod_beta download_def
          cacheJustified_checkBinariesWorking)
  have i: "cacheJustified sys roots (snd (setupAndroid_install sys m' s'))"
    if "cacheJustified sys roots s'" "sdkRoot s' \<in> roots" for m' s'
    using assms(1) that
    by (simp add: setupAndroid_install_def case_prod_beta cacheJustified_getBinaryLocation)
  have p: "cacheJustified sys roots (setupAndroid_platforms sys m' s')"
    if "cacheJustified sys roots s'" for m' s'
    using that by (simp add: setupAndroid_platforms_def)
  have a: "cacheJustified sys roots (snd (setupAndroid_avd sys r s'))"
    if "cacheJustified sys roots s'" "sdkRoot s' \<in> roots" for r s'
    using assms(1) that
    by (simp add: setupAndroid_avd_def case_prod_beta cacheJustified_getBinaryLocation
          cacheJustified_verifyAvdPresent)
  show ?thesis
    using assms
    by (simp add: setupAndroid_def case_prod_beta cacheJustified_verifyAdbRunning a p i b)
qed

lemma cacheJustified_run_in:
  assumes "\<forall>segs. path_join sys segs \<noteq> []" and "cacheJustified sys roots s"
    and "getSdkRoot sys s \<in> roots"
  shows "cacheJustified sys roots (snd (run sys s))"
proof (cases "opt_help (options s) \<or> getSdkRoot sys s = []")
  case True
  with assms(2) show ?thesis by (auto simp add: run_def Let_def)
next
  case False
  let ?s1 = "s\<lparr>sdkRoot := getSdkRoot sys s\<rparr>"
  let ?s2 = "snd (getSetupConfigs sys (options s) ?s1)"
  let ?cfg = "fst (getSetupConfigs sys (options s) ?s1)"
  have j2: "cacheJustified sys roots ?s2" and r2: "sdkRoot ?s2 \<in> roots"
    using assms(2,3) by (simp_all add: getSetupConfigs_def)
  have j3: "cacheJustified sys roots (snd (verifySetup sys ?cfg ?s2))"
    by (rule cacheJustified_verifySetup[OF assms(1) r2 j2])
  have r3: "sdkRoot (snd (verifySetup sys ?cfg ?s2)) \<in> roots" using r2 by simp
  have j4: "cacheJustified sys roots
              (snd (setupAndroid sys ?cfg (fst (verifySetup sys ?cfg ?s2)) (snd (verifySetup sys ?cfg ?s2))))"
    by (rule cacheJustified_setupAndroid[OF assms(1) r3 j3])
  from False j3 j4 show ?thesis
    by (simp add: run_def Let_def case_prod_beta)
qed

lemma cacheJustified_run:
  assumes "\<forall>segs. path_join sys segs \<noteq> []" and "cacheJustified sys roots s"
  shows "cacheJustified sys (insert (getSdkRoot sys s) roots) (snd (run sys s))"
proof -
  have "cacheJustified sys (insert (getSdkRoot sys s) roots) s"
    by (rule cacheJustified_roots[OF assms(2)]) auto
  then show ?thesis
    by (rule cacheJustified_run_in[OF assms(1)]) simp
qed

lemma getBinaryLocation_failed_keeps_cache:
  "\<forall>segs. path_join sys segs \<noteq> [] \<Longrightarrow> fst (getBinaryLocation sys b s) = [] \<Longrightarrow>
   binaryLocation (snd (getBinaryLocation sys b s)) = binaryLocation s"
  by (simp add: getBinaryLocation_def Let_def case_prod_beta split: if_splits)

lemma cachedOrLocate_hit:
  "cacheJustified sys roots s \<Longrightarrow> binaryLocation s b = Some loc \<Longrightarrow>
   cachedOrLocate sys b s = (loc, s) \<and> entryJustified sys roots (platform s) (trace s) b loc"
  by (auto simp add: cachedOrLocate_def cacheJustified_def entryJustified_def split: option.splits
           dest: spec[of _ b])

lemma joinWith_nonempty: "ps \<noteq> [] \<Longrightarrow> hd ps \<noteq> [] \<Longrightarrow> joinWith sep ps \<noteq> []"
  by (induction sep ps rule: joinWith.induct) simp_all

lemma posix_join_nonempty: "posix_join segs \<noteq> []"
proof -
  let ?parts = "filter (\<lambda>p. p \<noteq> []) segs"
  have "hd ?parts \<noteq> []" if "?parts \<noteq> []"
    using that by (metis (mono_tags, lifting) hd_in_set mem_Collect_eq set_filter)
  then show ?thesis
    by (auto simp add: posix_join_def Let_def dest: joinWith_nonempty[rotated])
qed


lemma cacheJustified_rejects_foreign_path:
  "\<not> cacheJustified sample_sys {''/opt/sdk''}
       ((started plain_options sdk_host)
          \<lparr>binaryLocation := [Emulator \<mapsto> ''/opt/sdk/platforms''],
           trace := [EvExists ''/opt/sdk/platforms'' True]\<rparr>)"
proof
  assume "cacheJustified sample_sys {''/opt/sdk''}
       ((started plain_options sdk_host)
          \<lparr>binaryLocation := [Emulator \<mapsto> ''/opt/sdk/platforms''],
           trace := [EvExists ''/opt/sdk/platforms'' True]\<rparr>)"
  then have "entryJustified sample_sys {''/opt/sdk''} Linux [EvExists ''/opt/sdk/platforms'' True]
               Emulator ''/opt/sdk/platforms''"
    by (auto simp add: cacheJustified_def started_def constructor_def dest: spec[of _ Emulator])
  then show False
    by (simp add: entryJustified_def candidateLocations_def sample_sys_def posix_join_def)
qed

lemma cacheJustified_rejects_foreign_sentinel:
  "\<not> cacheJustified sample_sys {''/opt/sdk''}
       ((started plain_options sdk_host)
          \<lparr>binaryLocation := [Sdkmanager \<mapsto> ''PATH''],
           trace := [EvWhich ''adb'' True]\<rparr>)"
proof
  assume "cacheJustified sample_sys {''/opt/sdk''}
       ((started plain_options sdk_host)
          \<lparr>binaryLocation := [Sdkmanager \<mapsto> ''PATH''],
           trace := [EvWhich ''adb'' True]\<rparr>)"
  then have "entryJustified sample_sys {''/opt/sdk''} Linux [EvWhich ''adb'' True] Sdkmanager ''PATH''"
    by (auto simp add: cacheJustified_def started_def constructor_def dest: spec[of _ Sdkmanager])
  then show False
    by (simp add: entryJustified_def)
qed


section \<open>The claims\<close>

text \<open>
  C1 (as amended). The virtual-device pass of \<open>verifySetup\<close> runs in every run, whether
  or not avdmanager was located: the devices are listed once, and the virtual-device
  identifier is in the missing requirements once when the listing does not show the
  device, and not at all when it does. A call that fails or prints nothing shows no
  device.
\<close>

theorem verifySetup_always_checks_avd:
  assumes "NIGHTWATCH_AVD sys \<notin> range binName"
    and "NIGHTWATCH_AVD sys \<noteq> ''platforms''"
    and "NIGHTWATCH_AVD sys \<noteq> []"
    and "verifyPresence sys cfg s = ((missingBinaries, missing1), s2)"
  shows "count_list (fst (verifySetup sys cfg s)) (NIGHTWATCH_AVD sys)
           = (if fst (verifyAvdPresent sys s2) then 0 else 1)
       \<and> filter (isExecOf ''list avd'') (newEvents s2 (snd (verifyAvdPresent sys s2)))
           = [avdListEvent sys s2]
       \<and> (avdListing sys s2 = [] \<longrightarrow> \<not> fst (verifyAvdPresent sys s2))"
proof -
  obtain avdPresent s3 where va: "verifyAvdPresent sys s2 = (avdPresent, s3)"
    by (cases "verifyAvdPresent sys s2")
  obtain nonWorking s4 where
    cw: "checkBinariesWorking sys (binariesPresent (requiredBinariesFor cfg) missingBinaries) s3
           = (nonWorking, s4)"
    by (cases "checkBinariesWorking sys (binariesPresent (requiredBinariesFor cfg) missingBinaries) s3")
  have m1: "missing1 = map binName missingBinaries
                @ (if Emulator \<in> set (requiredBinariesFor cfg)
                      \<and> \<not> fs_existsSync sys (world s) (path_join sys [sdkRoot s, ''platforms''])
                   then [''platforms''] else [])"
    using assms(4) verifyPresence_fst[of sys cfg s] by simp
  have notbin: "NIGHTWATCH_AVD sys \<notin> set (map binName xs)" for xs
    using assms(1) by auto
  have c1: "count_list missing1 (NIGHTWATCH_AVD sys) = 0"
    unfolding m1 using notbin assms(2) by (simp add: count_list_0_iff)
  have c2: "count_list (map binName nonWorking) (NIGHTWATCH_AVD sys) = 0"
    using notbin by (simp add: count_list_0_iff)
  have "count_list (fst (verifySetup sys cfg s)) (NIGHTWATCH_AVD sys) = (if avdPresent then 0 else 1)"
    unfolding verifySetup_fst[OF assms(4) va cw] using c1 c2 by simp
  moreover have "filter (isExecOf ''list avd'') (newEvents s2 (snd (verifyAvdPresent sys s2)))
           = [avdListEvent sys s2]"
    by (simp add: filter_newEvents)
  moreover have "avdListing sys s2 = [] \<longrightarrow> \<not> fst (verifyAvdPresent sys s2)"
    using assms(3) by (simp add: verifyAvdPresent_fst avdListed_empty)
  ultimately show ?thesis using va by simp
qed

theorem verifySetup_always_checks_avd_witness:
  "count_list (fst (verifySetup sample_sys both_configs (started plain_options bare_host)))
     (NIGHTWATCH_AVD sample_sys) = 1
   \<and> count_list (fst (verifySetup sample_sys both_configs (started plain_options listing_host)))
     (NIGHTWATCH_AVD sample_sys) = 0"
proof -
  have h1: "NIGHTWATCH_AVD sample_sys \<notin> range binName"
  proof
    assume "NIGHTWATCH_AVD sample_sys \<in> range binName"
    then obtain b where "NIGHTWATCH_AVD sample_sys = binName b" by blast
    then show False by (cases b) (simp_all add: sample_sys_def sample_avd_def)
  qed
  have h2: "NIGHTWATCH_AVD sample_sys \<noteq> ''platforms''" "NIGHTWATCH_AVD sample_sys \<noteq> []"
    by (simp_all add: sample_sys_def sample_avd_def)
  have absent: "\<not> fst (verifyAvdPresent sample_sys
                       (snd (verifyPresence sample_sys both_configs (started plain_options bare_host))))"
    by code_simp
  have present: "fst (verifyAvdPresent sample_sys
                       (snd (verifyPresence sample_sys both_configs (started plain_options listing_host))))"
    by code_simp
  from verifySetup_always_checks_avd[OF h1 h2, of both_configs "started plain_options bare_host"
         "fst (fst (verifyPresence sample_sys both_configs (started plain_options bare_host)))"
         "snd (fst (verifyPresence sample_sys both_configs (started plain_options bare_host)))"
         "snd (verifyPresence sample_sys both_configs (started plain_options bare_host))"]
       verifySetup_always_checks_avd[OF h1 h2, of both_configs "started plain_options listing_host"
         "fst (fst (verifyPresence sample_sys both_configs (started plain_options listing_host)))"
         "snd (fst (verifyPresence sample_sys both_configs (started plain_options listing_host)))"
         "snd (verifyPresence sample_sys both_configs (started plain_options listing_host))"]
       absent present
  show ?thesis by simp
qed

text \<open>
  C1 fails as stated: on a host where avdmanager is not located, the devices are still
  listed (by running the empty location) and the virtual device is added to the missing
  requirements.
\<close>

theorem verifySetup_always_checks_avd_counterexample:
  "Avdmanager \<in> set (fst (checkBinariesPresent sample_sys (requiredBinariesFor both_configs)
                             (started plain_options bare_host)))
   \<and> fst (verifySetup sample_sys both_configs (started plain_options bare_host))
       = [''adb'', ''avdmanager'', ''emulator'', ''platforms'', NIGHTWATCH_AVD sample_sys]
   \<and> filter (isExecOf ''list avd'')
        (trace (snd (verifySetup sample_sys both_configs (started plain_options bare_host))))
       = [EvExec ''avdmanager'' ''list avd'' ''./ list avd'' (Some ''.'') None]"
  by code_simp


text \<open>
  C2 (as amended). In a run without the help flag, an unset or empty \<open>ANDROID_HOME\<close>
  makes \<open>run\<close> return false with no external call made. A non-empty \<open>ANDROID_HOME\<close> is
  taken as the SDK root as it is: the run goes on to the prompt and to the first probe
  of the presence pass, and the path itself is never probed before.
\<close>

theorem run_without_sdk_root:
  assumes "\<not> opt_help (options s)"
  shows "(process_env_ANDROID_HOME sys (world s) = None
            \<or> process_env_ANDROID_HOME sys (world s) = Some []
          \<longrightarrow> run sys s = (False, s\<lparr>sdkRoot := []\<rparr>))
       \<and> (\<forall>h. process_env_ANDROID_HOME sys (world s) = Some h \<and> h \<noteq> []
            \<longrightarrow> sdkRoot (snd (run sys s)) = h
              \<and> (\<exists>answers found.
                   prefix (trace s @
                      [EvPrompt (getConfigFromOptions (options s)) answers,
                       EvExists (path_join sys [h, SDK_BINARY_LOCATIONS sys Adb,
                                   getBinaryNameForOS sys (platform s) ''adb'']) found])
                     (trace (snd (run sys s)))))"
proof (intro conjI impI allI)
  assume "process_env_ANDROID_HOME sys (world s) = None
            \<or> process_env_ANDROID_HOME sys (world s) = Some []"
  then have "getSdkRoot sys s = []" by (auto simp: getSdkRoot_def)
  with assms show "run sys s = (False, s\<lparr>sdkRoot := []\<rparr>)"
    by (simp add: run_def Let_def)
next
  fix h assume h: "process_env_ANDROID_HOME sys (world s) = Some h \<and> h \<noteq> []"
  then have root: "getSdkRoot sys s = h" by (auto simp: getSdkRoot_def)
  let ?s1 = "s\<lparr>sdkRoot := h\<rparr>"
  let ?cfg = "fst (getSetupConfigs sys (options s) ?s1)"
  let ?s2 = "snd (getSetupConfigs sys (options s) ?s1)"
  let ?s3 = "snd (verifySetup sys ?cfg ?s2)"
  have run_eq: "snd (run sys s) =
      (if opt_setup (options s) then snd (setupAndroid sys ?cfg (fst (verifySetup sys ?cfg ?s2)) ?s3)
       else ?s3)"
    using assms h root by (simp add: run_def Let_def case_prod_beta)
  show "sdkRoot (snd (run sys s)) = h"
    unfolding run_eq by simp
  let ?answers = "fst (inquirer_prompt sys (world s) (getConfigFromOptions (options s)))"
  let ?p = "path_join sys [h, SDK_BINARY_LOCATIONS sys Adb, getBinaryNameForOS sys (platform s) ''adb'']"
  let ?found = "fs_existsSync sys (world ?s2) ?p"
  have s2: "trace ?s2 = trace s @ [EvPrompt (getConfigFromOptions (options s)) ?answers]"
    "sdkRoot ?s2 = h" "platform ?s2 = platform s"
    by simp_all
  have "prefix (trace ?s2 @ [EvExists ?p ?found]) (trace ?s3)"
    using verifySetup_first_probe[of ?s2 sys ?cfg] by (simp only: s2)
  then have "prefix (trace s @ [EvPrompt (getConfigFromOptions (options s)) ?answers, EvExists ?p ?found])
          (trace ?s3)"
    by (simp only: s2 append_assoc append_Cons append_Nil)
  then have "prefix (trace s @ [EvPrompt (getConfigFromOptions (options s)) ?answers, EvExists ?p ?found])
          (trace (snd (run sys s)))"
    unfolding run_eq by (simp del: prefix_snoc)
  then show "\<exists>answers found.
       prefix (trace s @
          [EvPrompt (getConfigFromOptions (options s)) answers,
           EvExists (path_join sys [h, SDK_BINARY_LOCATIONS sys Adb,
                       getBinaryNameForOS sys (platform s) ''adb'']) found])
         (trace (snd (run sys s)))"
    by blast
qed

theorem run_without_sdk_root_witness:
  "run sample_sys (constructor plain_options ''/home/user'' Linux (bare_host\<lparr>host_home := None\<rparr>))
     = (False, (constructor plain_options ''/home/user'' Linux (bare_host\<lparr>host_home := None\<rparr>))\<lparr>sdkRoot := []\<rparr>)"
proof -
  let ?s = "constructor plain_options ''/home/user'' Linux (bare_host\<lparr>host_home := None\<rparr>)"
  have h1: "\<not> opt_help (options ?s)"
    by (simp add: constructor_def plain_options_def)
  have h2: "process_env_ANDROID_HOME sample_sys (world ?s) = None
            \<or> process_env_ANDROID_HOME sample_sys (world ?s) = Some []"
    by (simp add: constructor_def sample_sys_def bare_host_def)
  from run_without_sdk_root[OF h1, THEN conjunct1, rule_format, OF h2] show ?thesis .
qed

text \<open>
  C2 fails as stated: with \<open>ANDROID_HOME\<close> set to a path that does not exist, \<open>run\<close>
  prompts and goes through the presence pass, the platforms check and the listing of
  virtual devices before it returns false.
\<close>

theorem run_without_sdk_root_counterexample:
  "process_env_ANDROID_HOME sample_sys bare_host = Some ''/opt/sdk''
   \<and> \<not> fs_existsSync sample_sys bare_host ''/opt/sdk''
   \<and> trace (snd (run sample_sys (constructor plain_options ''/home/user'' Linux bare_host)))
       = [EvPrompt \<lparr>mode = None, browsers = None\<rparr> \<lparr>mode = Some ModeBoth, browsers = Some BrowsersNone\<rparr>,
          EvExists ''/opt/sdk/platform-tools/adb'' False,
          EvExists ''/opt/sdk/adb'' False,
          EvWhich ''adb'' False,
          EvExists ''/opt/sdk/cmdline-tools/latest/bin/avdmanager'' False,
          EvExists ''/opt/sdk/emulator/emulator'' False,
          EvExists ''/opt/sdk/platforms'' False,
          EvExists ''/opt/sdk/cmdline-tools/latest/bin/avdmanager'' False,
          EvExec ''avdmanager'' ''list avd'' ''./ list avd'' (Some ''.'') None]"
  by code_simp



text \<open>
  C3 (as amended). For the missing requirements \<open>platforms\<close> and the virtual device, the
  remediation creates the platforms directory once, calls the installer once with one
  package, the one the table gives for the virtual device, and creates the virtual device
  once unless the listing made just before shows it, in which case it is not created.
\<close>

theorem setupAndroid_platforms_and_avd:
  assumes "map_of (BINARY_TO_PACKAGE_NAME sys) (NIGHTWATCH_AVD sys) = Some pkg"
    and "''platforms'' \<notin> fst ` set (BINARY_TO_PACKAGE_NAME sys)"
    and "NIGHTWATCH_AVD sys \<noteq> ''avdmanager''"
    and "new = newEvents s (snd (setupAndroid sys cfg [''platforms'', NIGHTWATCH_AVD sys] s))"
  shows "(\<exists>ok. filter isMkdir new = [EvMkdir (path_join sys [sdkRoot s, ''platforms'']) ok])
       \<and> (\<exists>loc ok. filter isInstall new = [EvInstall loc (platform s) [pkg] ok])
       \<and> length (filter (isExecOf (createAvdArgs sys)) new)
           = (if list_ex (listingShows (NIGHTWATCH_AVD sys)) new then 0 else 1)"
proof -
  let ?m = "[''platforms'', NIGHTWATCH_AVD sys]"
  have m': "fst (setupAndroid_bootstrap sys ?m s) = ?m"
    using assms(3) by (simp add: setupAndroid_bootstrap_fst)
  have pk: "packagesToInstall sys ?m = [pkg]"
    using assms(1,2) by (rule packagesToInstall_platforms_avd)
  have mk: "\<exists>ok. filter isMkdir new = [EvMkdir (path_join sys [sdkRoot s, ''platforms'']) ok]"
    unfolding assms(4) by (subst setupAndroid_filter) (simp_all add: m' Let_def)
  have ins: "\<exists>loc ok. filter isInstall new = [EvInstall loc (platform s) [pkg] ok]"
    unfolding assms(4)
    by (subst setupAndroid_filter) (simp_all add: m' Let_def, simp add: installEvent_def pk)
  have cr: "filter (isExecOf (createAvdArgs sys)) new =
      (if fst (verifyAvdPresent sys (setupAndroid_platforms sys ?m
                 (snd (setupAndroid_install sys ?m (snd (setupAndroid_bootstrap sys ?m s))))))
       then [] else [createEvent sys (setupAndroid_platforms sys ?m
                 (snd (setupAndroid_install sys ?m (snd (setupAndroid_bootstrap sys ?m s)))))])"
    unfolding assms(4)
    by (subst setupAndroid_filter) (simp_all add: m' Let_def)
  have ls: "filter (listingShows (NIGHTWATCH_AVD sys)) new =
      (if fst (verifyAvdPresent sys (setupAndroid_platforms sys ?m
                 (snd (setupAndroid_install sys ?m (snd (setupAndroid_bootstrap sys ?m s))))))
       then [avdListEvent sys (setupAndroid_platforms sys ?m
                 (snd (setupAndroid_install sys ?m (snd (setupAndroid_bootstrap sys ?m s)))))] else [])"
    unfolding assms(4)
    by (subst setupAndroid_filter) (simp_all add: m' Let_def)
  have "list_ex (listingShows (NIGHTWATCH_AVD sys)) new
          \<longleftrightarrow> filter (listingShows (NIGHTWATCH_AVD sys)) new \<noteq> []"
    by (simp add: list_ex_iff filter_empty_conv)
  with cr ls mk ins show ?thesis by simp
qed


theorem setupAndroid_platforms_and_avd_witness:
  "(\<exists>ok. filter isMkdir
       (newEvents (started plain_options sdk_host)
          (snd (setupAndroid sample_sys both_configs [''platforms'', NIGHTWATCH_AVD sample_sys]
                  (started plain_options sdk_host))))
     = [EvMkdir (path_join sample_sys [sdkRoot (started plain_options sdk_host), ''platforms'']) ok])
   \<and> (\<exists>loc ok. filter isInstall
       (newEvents (started plain_options sdk_host)
          (snd (setupAndroid sample_sys both_configs [''platforms'', NIGHTWATCH_AVD sample_sys]
                  (started plain_options sdk_host))))
     = [EvInstall loc (platform (started plain_options sdk_host))
          [''system-images;android-30;google_apis;x86_64''] ok])"
proof -
  have h1: "map_of (BINARY_TO_PACKAGE_NAME sample_sys) (NIGHTWATCH_AVD sample_sys)
              = Some ''system-images;android-30;google_apis;x86_64''"
    by code_simp
  have h2: "''platforms'' \<notin> fst ` set (BINARY_TO_PACKAGE_NAME sample_sys)"
    by (simp add: sample_sys_def sample_packages_def sample_avd_def)
  have h3: "NIGHTWATCH_AVD sample_sys \<noteq> ''avdmanager''"
    by (simp add: sample_sys_def sample_avd_def)
  from setupAndroid_platforms_and_avd[OF h1 h2 h3 refl] show ?thesis by blast
qed

text \<open>
  C3 fails as stated: on a host with working binaries, for the missing requirements
  \<open>platforms\<close> and the virtual device, the installer is asked for one package.
\<close>

theorem setupAndroid_platforms_and_avd_counterexample:
  "filter isInstall
     (newEvents (started plain_options sdk_host)
        (snd (setupAndroid sample_sys both_configs [''platforms'', NIGHTWATCH_AVD sample_sys]
                (started plain_options sdk_host))))
   = [EvInstall ''/opt/sdk/cmdline-tools/latest/bin/sdkmanager'' Linux
        [''system-images;android-30;google_apis;x86_64''] True]"
  by code_simp


text \<open>
  C4 (as amended). With something missing, the result is true exactly when no step
  reported a failure, where the steps that can report one are the installer and the
  creation of the virtual device; the outcome of creating the platforms directory is
  not looked at. Whatever the installer returns, it is called once, the virtual device is
  looked for once afterwards, and created unless listed.
\<close>

theorem setupAndroid_result:
  assumes "new = newEvents s (snd (setupAndroid sys cfg m s))"
  shows "(fst (setupAndroid sys cfg m s) \<longleftrightarrow> m = [] \<or> filter (stepFailed sys) new = [])
       \<and> (m \<noteq> [] \<longrightarrow>
            length (filter isInstall new) = 1
          \<and> length (filter (isExecOf ''list avd'') new) = 1
          \<and> length (filter (isExecOf (createAvdArgs sys)) new)
              = (if list_ex (listingShows (NIGHTWATCH_AVD sys)) new then 0 else 1))"
proof (cases "m = []")
  case True
  then show ?thesis by (simp add: setupAndroid_def)
next
  case False
  let ?m' = "fst (setupAndroid_bootstrap sys m s)"
  let ?s3 = "setupAndroid_platforms sys ?m'
               (snd (setupAndroid_install sys ?m' (snd (setupAndroid_bootstrap sys m s))))"
  have failed: "filter (stepFailed sys) new =
      (if fst (setupAndroid_install sys ?m' (snd (setupAndroid_bootstrap sys m s))) then []
       else [installEvent sys ?m' (snd (setupAndroid_bootstrap sys m s))])
      @ (if fst (verifyAvdPresent sys ?s3) \<or> \<not> stepFailed sys (createEvent sys ?s3) then []
         else [createEvent sys ?s3])"
    unfolding assms using False
    by (subst setupAndroid_filter) (simp_all add: Let_def avdListEvent_def)
  have ins: "length (filter isInstall new) = 1"
    unfolding assms using False by (subst setupAndroid_filter) (simp_all add: Let_def)
  have lst: "length (filter (isExecOf ''list avd'') new) = 1"
    unfolding assms using False by (subst setupAndroid_filter) (simp_all add: Let_def)
  have cr: "filter (isExecOf (createAvdArgs sys)) new =
      (if fst (verifyAvdPresent sys ?s3) then [] else [createEvent sys ?s3])"
    unfolding assms using False by (subst setupAndroid_filter) (simp_all add: Let_def)
  have ls: "filter (listingShows (NIGHTWATCH_AVD sys)) new =
      (if fst (verifyAvdPresent sys ?s3) then [avdListEvent sys ?s3] else [])"
    unfolding assms using False by (subst setupAndroid_filter) (simp_all add: Let_def)
  have ex: "list_ex (listingShows (NIGHTWATCH_AVD sys)) new
          \<longleftrightarrow> filter (listingShows (NIGHTWATCH_AVD sys)) new \<noteq> []"
    by (simp add: list_ex_iff filter_empty_conv)
  have res: "fst (setupAndroid sys cfg m s) \<longleftrightarrow> filter (stepFailed sys) new = []"
    unfolding failed using False by (simp add: setupAndroid_fst Let_def)
  from False res ins lst cr ls ex show ?thesis by simp
qed

theorem setupAndroid_result_witness:
  "\<not> fst (setupAndroid sample_sys both_configs [''emulator'']
            (started plain_options (sdk_host\<lparr>host_install_ok := False\<rparr>)))
   \<and> filter (stepFailed sample_sys)
        (newEvents (started plain_options (sdk_host\<lparr>host_install_ok := False\<rparr>))
           (snd (setupAndroid sample_sys both_configs [''emulator'']
                   (started plain_options (sdk_host\<lparr>host_install_ok := False\<rparr>)))))
       = [EvInstall ''/opt/sdk/cmdline-tools/latest/bin/sdkmanager'' Linux [''emulator''] False]
   \<and> length (filter (isExecOf ''list avd'')
        (newEvents (started plain_options (sdk_host\<lparr>host_install_ok := False\<rparr>))
           (snd (setupAndroid sample_sys both_configs [''emulator'']
                   (started plain_options (sdk_host\<lparr>host_install_ok := False\<rparr>)))))) = 1"
proof -
  have failed: "filter (stepFailed sample_sys)
        (newEvents (started plain_options (sdk_host\<lparr>host_install_ok := False\<rparr>))
           (snd (setupAndroid sample_sys both_configs [''emulator'']
                   (started plain_options (sdk_host\<lparr>host_install_ok := False\<rparr>)))))
       = [EvInstall ''/opt/sdk/cmdline-tools/latest/bin/sdkmanager'' Linux [''emulator''] False]"
    by code_simp
  from setupAndroid_result[OF refl, of sample_sys both_configs "[''emulator'']"
         "started plain_options (sdk_host\<lparr>host_install_ok := False\<rparr>)"] failed
  show ?thesis by simp
qed

text \<open>
  C4 fails as stated: when the platforms directory cannot be created, and the installer
  and the creation of the virtual device succeed, the result is still true.
\<close>

theorem setupAndroid_result_counterexample:
  "fst (setupAndroid sample_sys both_configs [''platforms'', NIGHTWATCH_AVD sample_sys]
          (started plain_options (sdk_host\<lparr>host_mkdir_ok := False\<rparr>)))
   \<and> filter isMkdir
        (newEvents (started plain_options (sdk_host\<lparr>host_mkdir_ok := False\<rparr>))
           (snd (setupAndroid sample_sys both_configs [''platforms'', NIGHTWATCH_AVD sample_sys]
                   (started plain_options (sdk_host\<lparr>host_mkdir_ok := False\<rparr>)))))
       = [EvMkdir ''/opt/sdk/platforms'' False]"
  by code_simp


text \<open>
  C5. If avdmanager is among the missing requirements, or the check of sdkmanager that
  \<open>setupAndroid\<close> makes for a non-empty list fails, then the command-line tools are
  downloaded once and the packages handed to the installer are those of the missing
  requirements other than avdmanager.
\<close>

theorem setupAndroid_bootstrap_supersedes_avdmanager:
  assumes "distinct m"
    and "''avdmanager'' \<in> set m \<or> (m \<noteq> [] \<and> fst (checkBinariesWorking sys [Sdkmanager] s) \<noteq> [])"
    and "new = newEvents s (snd (setupAndroid sys cfg m s))"
  shows "filter isDownload new = [EvDownload (sdkRoot s) (platform s)]
       \<and> fst (setupAndroid_bootstrap sys m s) = filter (\<lambda>r. r \<noteq> ''avdmanager'') m
       \<and> (\<exists>loc ok. filter isInstall new
            = [EvInstall loc (platform s)
                 (packagesToInstall sys (filter (\<lambda>r. r \<noteq> ''avdmanager'') m)) ok])"
proof -
  from assms(2) have ne: "m \<noteq> []" by auto
  from assms(2) have boot: "fst (checkBinariesWorking sys [Sdkmanager] s) \<noteq> [] \<or> ''avdmanager'' \<in> set m"
    by auto
  have m': "fst (setupAndroid_bootstrap sys m s) = filter (\<lambda>r. r \<noteq> ''avdmanager'') m"
    using boot assms(1) by (auto simp add: setupAndroid_bootstrap_fst remove1_distinct_filter)
  have dl: "filter isDownload new = [EvDownload (sdkRoot s) (platform s)]"
    unfolding assms(3) using ne boot by (subst setupAndroid_filter) (auto simp add: Let_def)
  have ins: "\<exists>loc ok. filter isInstall new
            = [EvInstall loc (platform s)
                 (packagesToInstall sys (filter (\<lambda>r. r \<noteq> ''avdmanager'') m)) ok]"
    unfolding assms(3) using ne
    by (subst setupAndroid_filter) (simp_all add: Let_def, simp add: installEvent_def m')
  from dl m' ins show ?thesis by blast
qed

theorem setupAndroid_bootstrap_supersedes_avdmanager_witness:
  "filter isDownload
     (newEvents (started plain_options sdk_host)
        (snd (setupAndroid sample_sys both_configs [''avdmanager'', ''emulator'']
                (started plain_options sdk_host))))
     = [EvDownload ''/opt/sdk'' Linux]
   \<and> (\<exists>loc ok. filter isInstall
     (newEvents (started plain_options sdk_host)
        (snd (setupAndroid sample_sys both_configs [''avdmanager'', ''emulator'']
                (started plain_options sdk_host))))
     = [EvInstall loc Linux [''emulator''] ok])"
proof -
  have h1: "distinct [''avdmanager'', ''emulator'']" by simp
  have h2: "''avdmanager'' \<in> set [''avdmanager'', ''emulator'']
      \<or> ([''avdmanager'', ''emulator''] \<noteq> []
          \<and> fst (checkBinariesWorking sample_sys [Sdkmanager] (started plain_options sdk_host)) \<noteq> [])"
    by simp
  have pk: "packagesToInstall sample_sys (filter (\<lambda>r. r \<noteq> ''avdmanager'') [''avdmanager'', ''emulator''])
      = [''emulator'']"
    by code_simp
  have st: "sdkRoot (started plain_options sdk_host) = ''/opt/sdk''"
    "platform (started plain_options sdk_host) = Linux"
    by (simp_all add: started_def constructor_def)
  from setupAndroid_bootstrap_supersedes_avdmanager[OF h1 h2 refl, of both_configs]
  show ?thesis unfolding pk st by blast
qed

text \<open>
  C6. The missing requirements that \<open>verifySetup\<close> reports depend on the host only (its
  world, the SDK root and the platform), not on the cache or the trace left by earlier
  calls. So a second call in an environment that the first call left unchanged reports
  the same missing requirements, in the same order.
\<close>

theorem verifySetup_idempotent:
  "(world t = world s \<and> sdkRoot t = sdkRoot s \<and> platform t = platform s
      \<longrightarrow> fst (verifySetup sys cfg t) = fst (verifySetup sys cfg s))
   \<and> (world (snd (verifySetup sys cfg s)) = world s
      \<longrightarrow> fst (verifySetup sys cfg (snd (verifySetup sys cfg s))) = fst (verifySetup sys cfg s))"
proof (intro conjI impI)
  assume "world t = world s \<and> sdkRoot t = sdkRoot s \<and> platform t = platform s"
  then have "agreeOn {} t s" by (simp add: agreeOn_def)
  then show "fst (verifySetup sys cfg t) = fst (verifySetup sys cfg s)"
    by (rule verifySetup_agree(1))
next
  assume "world (snd (verifySetup sys cfg s)) = world s"
  then have "agreeOn {} (snd (verifySetup sys cfg s)) s" by (simp add: agreeOn_def)
  then show "fst (verifySetup sys cfg (snd (verifySetup sys cfg s))) = fst (verifySetup sys cfg s)"
    by (rule verifySetup_agree(1))
qed

theorem verifySetup_idempotent_witness:
  "fst (verifySetup sample_sys both_configs
          (snd (verifySetup sample_sys both_configs (started plain_options sdk_host))))
     = [''platforms'', ''nightwatch-android-11'']
   \<and> fst (verifySetup sample_sys both_configs (started plain_options sdk_host))
     = [''platforms'', ''nightwatch-android-11'']"
proof -
  have h: "world (snd (verifySetup sample_sys both_configs (started plain_options sdk_host)))
             = world (started plain_options sdk_host)"
    by code_simp
  have first: "fst (verifySetup sample_sys both_configs (started plain_options sdk_host))
     = [''platforms'', ''nightwatch-android-11'']"
    by code_simp
  from verifySetup_idempotent[THEN conjunct2, rule_format, OF h] first
  show ?thesis by simp
qed

text \<open>
  C7. A required binary that fails the presence pass is not among the binaries handed to
  the functional pass, is not run by it and is not reported by it, so it is in the
  missing requirements exactly once; and no binary is there more than once.
\<close>

theorem functional_pass_skips_missing_binaries:
  assumes "NIGHTWATCH_AVD sys \<notin> range binName"
    and "verifyPresence sys cfg s = ((missingBinaries, missing1), s2)"
    and "verifyAvdPresent sys s2 = (avdPresent, s3)"
    and "checkBinariesWorking sys (binariesPresent (requiredBinariesFor cfg) missingBinaries) s3
           = (nonWorking, s4)"
  shows "(\<forall>b \<in> set missingBinaries.
            b \<notin> set (binariesPresent (requiredBinariesFor cfg) missingBinaries)
          \<and> b \<notin> set nonWorking
          \<and> filter (isExecBy (binName b)) (newEvents s3 s4) = []
          \<and> count_list (fst (verifySetup sys cfg s)) (binName b) = 1)
       \<and> (\<forall>b. count_list (fst (verifySetup sys cfg s)) (binName b) \<le> 1)
       \<and> fst (verifySetup sys cfg s)
           = missing1 @ (if avdPresent then [] else [NIGHTWATCH_AVD sys]) @ map binName nonWorking"
proof -
  let ?req = "requiredBinariesFor cfg"
  let ?present = "binariesPresent ?req missingBinaries"
  have mb: "missingBinaries = filter (\<lambda>b. fst (getBinaryLocation sys b s) = []) ?req"
    using assms(2) verifyPresence_fst[of sys cfg s] by (simp add: checkBinariesPresent_fst)
  have m1: "missing1 = map binName missingBinaries
                @ (if Emulator \<in> set ?req
                      \<and> \<not> fs_existsSync sys (world s) (path_join sys [sdkRoot s, ''platforms''])
                   then [''platforms''] else [])"
    using assms(2) verifyPresence_fst[of sys cfg s] by simp
  have dmb: "distinct missingBinaries" unfolding mb by simp
  have dpres: "distinct ?present" by (simp add: binariesPresent_def)
  have nw_sub: "set nonWorking \<subseteq> set ?present"
    using checkBinariesWorking_set[of sys ?present s3] assms(4) by simp
  have dnw: "distinct nonWorking"
    using checkBinariesWorking_distinct[OF dpres, of sys s3] assms(4) by simp
  have disj: "b \<in> set missingBinaries \<Longrightarrow> b \<notin> set ?present" for b
    by (simp add: binariesPresent_def)
  have res: "fst (verifySetup sys cfg s)
           = missing1 @ (if avdPresent then [] else [NIGHTWATCH_AVD sys]) @ map binName nonWorking"
    by (rule verifySetup_fst[OF assms(2,3,4)])
  have avd0: "count_list (if avdPresent then [] else [NIGHTWATCH_AVD sys]) (binName b) = 0" for b
    using assms(1) by auto
  have cnt: "count_list (fst (verifySetup sys cfg s)) (binName b)
               = count_list missingBinaries b + count_list nonWorking b" for b
    unfolding res m1 by (simp add: count_list_map_binName avd0 del: count_list.simps)
  have quiet: "filter (isExecBy (binName b)) (newEvents s3 s4) = []" if "b \<in> set missingBinaries" for b
  proof -
    have "binName b \<notin> binName ` set ?present"
      using disj[OF that] inj_binName by (auto dest: injD)
    then have "filter (isExecBy (binName b)) (trace (snd (checkBinariesWorking sys ?present s3)))
                 = filter (isExecBy (binName b)) (trace s3)"
      by (rule checkBinariesWorking_execBy)
    moreover have "prefix (trace s3) (trace (snd (checkBinariesWorking sys ?present s3)))"
      by simp
    ultimately show ?thesis
      using assms(4) by (simp add: filter_newEvents)
  qed
  have one: "count_list (fst (verifySetup sys cfg s)) (binName b) = 1" if "b \<in> set missingBinaries" for b
    using that disj[OF that] nw_sub dmb by (auto simp add: cnt count_list_distinct count_list_0_iff)
  have le: "count_list (fst (verifySetup sys cfg s)) (binName b) \<le> 1" for b
    using disj[of b] nw_sub dmb dnw by (auto simp add: cnt count_list_distinct count_list_0_iff)
  show ?thesis
    using disj nw_sub quiet one le res by blast
qed

theorem functional_pass_skips_missing_binaries_witness:
  "count_list (fst (verifySetup sample_sys both_configs
       (started plain_options (sdk_host\<lparr>host_files := [''/opt/sdk/platform-tools/adb'']\<rparr>))))
     (binName Emulator) = 1
   \<and> filter (isExecBy (binName Emulator))
       (trace (snd (verifySetup sample_sys both_configs
          (started plain_options (sdk_host\<lparr>host_files := [''/opt/sdk/platform-tools/adb'']\<rparr>))))) = []"
proof -
  let ?s = "started plain_options (sdk_host\<lparr>host_files := [''/opt/sdk/platform-tools/adb'']\<rparr>)"
  let ?vp = "verifyPresence sample_sys both_configs ?s"
  let ?va = "verifyAvdPresent sample_sys (snd ?vp)"
  let ?cw = "checkBinariesWorking sample_sys
               (binariesPresent (requiredBinariesFor both_configs) (fst (fst ?vp))) (snd ?va)"
  have h1: "NIGHTWATCH_AVD sample_sys \<notin> range binName"
  proof
    assume "NIGHTWATCH_AVD sample_sys \<in> range binName"
    then obtain b where "NIGHTWATCH_AVD sample_sys = binName b" by blast
    then show False by (cases b) (simp_all add: sample_sys_def sample_avd_def)
  qed
  have h2: "?vp = ((fst (fst ?vp), snd (fst ?vp)), snd ?vp)" by simp
  have h3: "?va = (fst ?va, snd ?va)" by simp
  have h4: "?cw = (fst ?cw, snd ?cw)" by simp
  have miss: "Emulator \<in> set (fst (fst ?vp))" by code_simp
  have tr: "filter (isExecBy (binName Emulator)) (trace (snd (verifySetup sample_sys both_configs ?s))) = []"
    by code_simp
  from functional_pass_skips_missing_binaries[OF h1 h2 h3 h4, THEN conjunct1, rule_format, OF miss] tr
  show ?thesis by simp
qed

text \<open>
  C8. \<open>verifyAvdPresent\<close> returns true exactly when some record of the listing, cut at
  the separator of nine dashes, holds the device name and no \<open>Error: \<close>. For a listing of
  three records closed by separators, whose second record reports an error and whose third
  holds the name and no error, it returns true.
\<close>

theorem verifyAvdPresent_parses_listing:
  "(fst (verifyAvdPresent sys s) \<longleftrightarrow>
      (\<exists>r \<in> set (str_split (avdListing sys s) ''---------'').
          \<not> sublist ''Error: '' r \<and> sublist (NIGHTWATCH_AVD sys) r))
   \<and> (plainRecord a \<and> plainRecord (b @ ''Error: '' @ c) \<and> plainRecord (d @ NIGHTWATCH_AVD sys @ e)
        \<and> \<not> sublist ''Error: '' (d @ NIGHTWATCH_AVD sys @ e)
        \<and> avdListing sys s =
            a @ ''---------'' @ (b @ ''Error: '' @ c) @ ''---------''
              @ (d @ NIGHTWATCH_AVD sys @ e) @ ''---------''
      \<longrightarrow> str_split (avdListing sys s) ''---------''
            = [a, b @ ''Error: '' @ c, d @ NIGHTWATCH_AVD sys @ e, []]
          \<and> fst (verifyAvdPresent sys s))"
proof (intro conjI impI)
  show general: "fst (verifyAvdPresent sys s) \<longleftrightarrow>
      (\<exists>r \<in> set (str_split (avdListing sys s) ''---------'').
          \<not> sublist ''Error: '' r \<and> sublist (NIGHTWATCH_AVD sys) r)"
    by (simp only: verifyAvdPresent_fst avdListed_iff)
  assume h: "plainRecord a \<and> plainRecord (b @ ''Error: '' @ c) \<and> plainRecord (d @ NIGHTWATCH_AVD sys @ e)
        \<and> \<not> sublist ''Error: '' (d @ NIGHTWATCH_AVD sys @ e)
        \<and> avdListing sys s =
            a @ ''---------'' @ (b @ ''Error: '' @ c) @ ''---------''
              @ (d @ NIGHTWATCH_AVD sys @ e) @ ''---------''"
  then show records: "str_split (avdListing sys s) ''---------''
            = [a, b @ ''Error: '' @ c, d @ NIGHTWATCH_AVD sys @ e, []]"
    using str_split_three[of a "b @ ''Error: '' @ c" "d @ NIGHTWATCH_AVD sys @ e"] by simp
  have "sublist (NIGHTWATCH_AVD sys) (d @ NIGHTWATCH_AVD sys @ e)" by simp
  with h records show "fst (verifyAvdPresent sys s)"
    unfolding general by (intro bexI[of _ "d @ NIGHTWATCH_AVD sys @ e"]) simp_all
qed

theorem verifyAvdPresent_parses_listing_witness:
  "fst (verifyAvdPresent sample_sys (started plain_options listing_host))
   \<and> str_split (avdListing sample_sys (started plain_options listing_host)) ''---------''
       = [''Available Android Virtual Devices: '', '' Name: broken Error: missing image '',
          '' Name: nightwatch-android-11 Device: pixel_5 '', []]"
proof -
  let ?s = "started plain_options listing_host"
  have name: "NIGHTWATCH_AVD sample_sys = ''nightwatch-android-11''"
    by (simp add: sample_sys_def sample_avd_def)
  have h: "plainRecord ''Available Android Virtual Devices: ''
        \<and> plainRecord ('' Name: broken '' @ ''Error: '' @ ''missing image '')
        \<and> plainRecord ('' Name: '' @ NIGHTWATCH_AVD sample_sys @ '' Device: pixel_5 '')
        \<and> \<not> sublist ''Error: '' ('' Name: '' @ NIGHTWATCH_AVD sample_sys @ '' Device: pixel_5 '')
        \<and> avdListing sample_sys ?s =
            ''Available Android Virtual Devices: '' @ ''---------''
              @ ('' Name: broken '' @ ''Error: '' @ ''missing image '') @ ''---------''
              @ ('' Name: '' @ NIGHTWATCH_AVD sample_sys @ '' Device: pixel_5 '') @ ''---------''"
    unfolding name str_includes_sublist[symmetric] by code_simp
  from verifyAvdPresent_parses_listing[THEN conjunct2, rule_format, OF h]
  show ?thesis by (simp add: name)
qed


text \<open>
  C9. When the \<open>execSync\<close> call of \<open>execBinary\<close> throws, \<open>execBinary\<close> returns the empty
  string; otherwise it returns the captured output. In both cases it returns to its
  caller, with the call recorded.
\<close>

theorem execBinary_catches_failure:
  "(execResult sys loc name args s = None \<longrightarrow> fst (execBinary sys loc name args s) = [])
   \<and> (\<forall>out. execResult sys loc name args s = Some out \<longrightarrow> fst (execBinary sys loc name args s) = out)
   \<and> newEvents s (snd (execBinary sys loc name args s))
       = [EvExec name args (execCommand sys (platform s) loc name args) (execCwd sys loc)
            (execResult sys loc name args s)]"
  by (simp add: newEvents_def)

theorem execBinary_catches_failure_witness:
  "execResult sample_sys ''/opt/sdk/emulator/emulator'' ''emulator'' ''-version''
       (started plain_options bare_host) = None
   \<and> fst (execBinary sample_sys ''/opt/sdk/emulator/emulator'' ''emulator'' ''-version''
       (started plain_options bare_host)) = []
   \<and> execResult sample_sys ''PATH'' ''avdmanager'' ''list avd''
       (started plain_options (listing_host\<lparr>host_exec := [(''avdmanager list avd'', ''none'')]\<rparr>)) = Some ''none''
   \<and> fst (execBinary sample_sys ''PATH'' ''avdmanager'' ''list avd''
       (started plain_options (listing_host\<lparr>host_exec := [(''avdmanager list avd'', ''none'')]\<rparr>))) = ''none''"
proof -
  have h1: "execResult sample_sys ''/opt/sdk/emulator/emulator'' ''emulator'' ''-version''
       (started plain_options bare_host) = None"
    by code_simp
  have h2: "execResult sample_sys ''PATH'' ''avdmanager'' ''list avd''
       (started plain_options (listing_host\<lparr>host_exec := [(''avdmanager list avd'', ''none'')]\<rparr>)) = Some ''none''"
    by code_simp
  from execBinary_catches_failure[THEN conjunct1, rule_format, OF h1]
       execBinary_catches_failure[THEN conjunct2, THEN conjunct1, rule_format, OF h2] h1 h2
  show ?thesis by simp
qed

text \<open>
  C10. Given that \<open>path.join\<close> never returns the empty string, the cache of a new
  instance is justified (it is empty) and every method keeps it justified for the SDK
  roots of the instance, where \<open>run\<close> adds the root it resolves: each entry is a
  non-empty location that a lookup of that very binary has found, one of the locations
  probed for the binary under an SDK root, with the successful probe in the trace, or,
  for adb, the sentinel \<open>PATH\<close> with the successful PATH lookup of adb in the trace. A
  failed lookup leaves the cache as it was; a cache hit returns the entry without a new
  lookup, and the entry is justified for the binary asked for. In particular the cache
  after the run of a new instance is justified for the one root that the run resolved.
\<close>

theorem binaryLocation_cache_invariant:
  assumes "\<forall>segs. path_join sys segs \<noteq> []"
  shows "cacheJustified sys roots (constructor opts dir plat w)
       \<and> (cacheJustified sys roots s \<and> sdkRoot s \<in> roots \<longrightarrow>
            cacheJustified sys roots (snd (getBinaryLocation sys b s))
          \<and> cacheJustified sys roots (snd (checkBinariesPresent sys bs s))
          \<and> cacheJustified sys roots (snd (checkBinariesWorking sys bs s))
          \<and> cacheJustified sys roots (snd (verifyAvdPresent sys s))
          \<and> cacheJustified sys roots (verifyAdbRunning sys s)
          \<and> cacheJustified sys roots (snd (verifySetup sys cfg s))
          \<and> cacheJustified sys roots (snd (setupAndroid sys cfg m s)))
       \<and> (cacheJustified sys roots s \<longrightarrow>
            cacheJustified sys roots (snd (execBinary sys loc n a s))
          \<and> cacheJustified sys (insert (getSdkRoot sys s) roots) (snd (run sys s))
          \<and> (\<forall>l. binaryLocation s b = Some l \<longrightarrow>
                 cachedOrLocate sys b s = (l, s)
               \<and> entryJustified sys roots (platform s) (trace s) b l))
       \<and> (fst (getBinaryLocation sys b s) = []
            \<longrightarrow> binaryLocation (snd (getBinaryLocation sys b s)) = binaryLocation s)
       \<and> cacheJustified sys {getSdkRoot sys (constructor opts dir plat w)}
            (snd (run sys (constructor opts dir plat w)))"
proof -
  have fresh: "cacheJustified sys R (constructor opts dir plat w)" for R
    by (simp add: cacheJustified_def constructor_def)
  have ops: "cacheJustified sys roots (snd (getBinaryLocation sys b s))
          \<and> cacheJustified sys roots (snd (checkBinariesPresent sys bs s))
          \<and> cacheJustified sys roots (snd (checkBinariesWorking sys bs s))
          \<and> cacheJustified sys roots (snd (verifyAvdPresent sys s))
          \<and> cacheJustified sys roots (verifyAdbRunning sys s)
          \<and> cacheJustified sys roots (snd (verifySetup sys cfg s))
          \<and> cacheJustified sys roots (snd (setupAndroid sys cfg m s))"
    if "cacheJustified sys roots s" "sdkRoot s \<in> roots"
    using assms that
    by (simp add: cacheJustified_getBinaryLocation cacheJustified_checkBinariesPresent
          cacheJustified_checkBinariesWorking cacheJustified_verifyAvdPresent
          cacheJustified_verifyAdbRunning cacheJustified_verifySetup cacheJustified_setupAndroid)
  have rest: "cacheJustified sys roots (snd (execBinary sys loc n a s))
          \<and> cacheJustified sys (insert (getSdkRoot sys s) roots) (snd (run sys s))
          \<and> (\<forall>l. binaryLocation s b = Some l \<longrightarrow>
                 cachedOrLocate sys b s = (l, s)
               \<and> entryJustified sys roots (platform s) (trace s) b l)"
    if "cacheJustified sys roots s"
    using that cacheJustified_run[OF assms that] cachedOrLocate_hit[OF that] by simp
  have failed: "binaryLocation (snd (getBinaryLocation sys b s)) = binaryLocation s"
    if "fst (getBinaryLocation sys b s) = []"
    using that by (rule getBinaryLocation_failed_keeps_cache[OF assms])
  have whole: "cacheJustified sys {getSdkRoot sys (constructor opts dir plat w)}
            (snd (run sys (constructor opts dir plat w)))"
    using cacheJustified_run[OF assms fresh[of "{}"]] by simp
  from fresh[of roots] ops rest failed whole show ?thesis by blast
qed

theorem binaryLocation_cache_invariant_witness:
  "cacheJustified sample_sys {''/opt/sdk''}
     (snd (run sample_sys (constructor plain_options ''/home/user'' Linux sdk_host)))
   \<and> binaryLocation (snd (run sample_sys (constructor plain_options ''/home/user'' Linux sdk_host))) Adb
       = Some ''/opt/sdk/platform-tools/adb''
   \<and> entryJustified sample_sys {''/opt/sdk''} Linux
       (trace (snd (run sample_sys (constructor plain_options ''/home/user'' Linux sdk_host))))
       Adb ''/opt/sdk/platform-tools/adb''
   \<and> binaryLocation (snd (getBinaryLocation sample_sys Emulator
                            (constructor plain_options ''/home/user'' Linux bare_host))) Emulator
       = None"
proof -
  have h: "\<forall>segs. path_join sample_sys segs \<noteq> []"
    by (simp add: sample_sys_def posix_join_nonempty)
  let ?s0 = "constructor plain_options ''/home/user'' Linux sdk_host"
  let ?b0 = "constructor plain_options ''/home/user'' Linux bare_host"
  let ?s1 = "snd (run sample_sys ?s0)"
  have root: "getSdkRoot sample_sys ?s0 = ''/opt/sdk''" by code_simp
  have plat: "platform ?s1 = Linux" by code_simp
  note inv0 = binaryLocation_cache_invariant[OF h, where roots="{''/opt/sdk''}" and opts=plain_options
      and dir="''/home/user''" and plat=Linux and w=sdk_host and s="?s1" and b=Adb and bs="[]"
      and loc="[]" and n="[]" and a="[]" and cfg=both_configs and m="[]"]
  note inv2 = binaryLocation_cache_invariant[OF h, where roots="{''/opt/sdk''}" and opts=plain_options
      and dir="''/home/user''" and plat=Linux and w=bare_host and s="?b0" and b=Emulator and bs="[]"
      and loc="[]" and n="[]" and a="[]" and cfg=both_configs and m="[]"]
  have j: "cacheJustified sample_sys {''/opt/sdk''} ?s1"
    using inv0 root by simp
  have entry: "binaryLocation ?s1 Adb = Some ''/opt/sdk/platform-tools/adb''"
    by code_simp
  have just: "entryJustified sample_sys {''/opt/sdk''} Linux (trace ?s1) Adb ''/opt/sdk/platform-tools/adb''"
    using inv0 j entry plat by simp
  have failed: "fst (getBinaryLocation sample_sys Emulator ?b0) = []"
    by code_simp
  have "binaryLocation (snd (getBinaryLocation sample_sys Emulator ?b0)) = binaryLocation ?b0"
    using inv2 failed by blast
  then have "binaryLocation (snd (getBinaryLocation sample_sys Emulator ?b0)) Emulator = None"
    by (simp add: constructor_def)
  with j entry just show ?thesis by simp
qed

end
